theory Spec2Isabelle
  imports Main "HOL-Library.AList"
begin

section \<open>The schema model (package api/core)\<close>

text \<open>
  Modelled from the spec: the declarations of \<open>cty.Type\<close>, \<open>core.TableField\<close>,
  \<open>core.TableJoin\<close> and \<open>core.Table\<close> are not part of the sources at hand; the
  store package reads the members \<open>Name\<close>, \<open>Type\<close>, \<open>Fields\<close>, \<open>Tables\<close>,
  \<open>Joins\<close>, \<open>Single\<close> of them, and the schema input of the specification lists
  \<open>{name, fields, tables, joins, single, unique}\<close>, \<open>{name, type, unique}\<close> and
  \<open>{table, single, unique}\<close>. The type language is the one of the value library:
  the three primitive types, the dynamic pseudo type and the collection and structural
  type constructors.
\<close>

datatype ctyType =
    cty_Bool
  | cty_Number
  | cty_String
  | cty_DynamicPseudoType
  | cty_List ctyType
  | cty_Map ctyType
  | cty_Set ctyType
  | cty_Object "(string \<times> ctyType) list"
  | cty_Tuple "ctyType list"

fun IsObjectType :: "ctyType \<Rightarrow> bool" where
  "IsObjectType (cty_Object _) = True"
| "IsObjectType _ = False"

fun IsMapType :: "ctyType \<Rightarrow> bool" where
  "IsMapType (cty_Map _) = True"
| "IsMapType _ = False"

record TableField =
  f_Name :: string
  f_Type :: ctyType
  f_Unique :: bool

record TableJoin =
  j_Table :: string
  j_Single :: bool
  j_Unique :: bool

datatype Table = core_Table
  (Name: string)
  (Fields: "TableField list")
  (Tables: "Table list")
  (Joins: "TableJoin list")
  (Single: bool)
  (Unique: bool)

section \<open>The schema graph (store/schemagraph.go)\<close>

datatype RelType = OneToOne | OneToMany | BelongsTo

text \<open>
  A \<open>*SchemaNode\<close> is modelled by the key under which the node is stored: the store
  of nodes is the association list behind \<open>nodeRefMap\<close>, read with \<open>map_of\<close> and
  written with \<open>AList.update\<close>. A name without an entry stands for the nil pointer, and
  reading through it is the runtime panic of the nil dereference. An edge holds the key
  of the node it points to.
\<close>

record SchemaEdge =
  Node :: string
  Rel :: RelType

record SchemaNode =
  Table :: Table
  Edges :: "SchemaEdge list"

type_synonym nodeRefMap = "(string \<times> SchemaNode) list"

record SchemaGraph =
  Nodes :: "string list"
  NodeIndex :: nodeRefMap

datatype panic = NilPointer | Unsupported ctyType

type_synonym error = string

definition isScalar :: "SchemaEdge \<Rightarrow> bool" where
  "isScalar e = (Rel e \<noteq> OneToMany)"

text \<open>
  \<open>addEdgeFromJoin\<close>: the receiver \<open>n\<close> gets the edge to the child appended, then the
  child gets the edge back to \<open>n\<close>. The two writes go to the store one after the other,
  so a node that joins itself receives both edges.
\<close>

definition addEdgeFromJoin :: "nodeRefMap \<Rightarrow> string \<Rightarrow> string \<Rightarrow> bool \<Rightarrow> panic + nodeRefMap" where
  "addEdgeFromJoin nodes n child unique =
     (let edgeToChild = \<lparr>Node = child, Rel = (if unique then OneToOne else OneToMany)\<rparr>;
          edgeToParent = \<lparr>Node = n, Rel = BelongsTo\<rparr>
      in case map_of nodes n of
           None \<Rightarrow> Inl NilPointer
         | Some pn \<Rightarrow>
             (let nodes1 = AList.update n (pn\<lparr>Edges := Edges pn @ [edgeToChild]\<rparr>) nodes
              in case map_of nodes1 child of
                   None \<Rightarrow> Inl NilPointer
                 | Some cn \<Rightarrow>
                     Inr (AList.update child (cn\<lparr>Edges := Edges cn @ [edgeToParent]\<rparr>) nodes1)))"

text \<open>\<open>createFrom\<close>: one fresh node per table, the nested tables right after their parent.\<close>

fun createFrom :: "nodeRefMap \<Rightarrow> Table list \<Rightarrow> nodeRefMap" where
  "createFrom nodes [] = nodes"
| "createFrom nodes (core_Table n fs cs js sg un # ts) =
     createFrom
       (createFrom (AList.update n \<lparr>Table = core_Table n fs cs js sg un, Edges = []\<rparr> nodes) cs)
       ts"

text \<open>
  The loop over the explicit joins of one table. It stops at the first join whose target
  has no node and returns the error; the edges added so far stay.
\<close>

fun connectJoins :: "nodeRefMap \<Rightarrow> string \<Rightarrow> TableJoin list \<Rightarrow> panic + (nodeRefMap \<times> error option)" where
  "connectJoins nodes tname [] = Inr (nodes, None)"
| "connectJoins nodes tname (j # js) =
     (case map_of nodes (j_Table j) of
        None \<Rightarrow> Inr (nodes, Some (''join refers to unknown table: '' @ tname @ '' --> '' @ j_Table j))
      | Some _ \<Rightarrow>
          (case addEdgeFromJoin nodes (j_Table j) tname (j_Single j) of
             Inl p \<Rightarrow> Inl p
           | Inr nodes' \<Rightarrow> connectJoins nodes' tname js))"

definition nodePtr :: "nodeRefMap \<Rightarrow> string \<Rightarrow> string option" where
  "nodePtr nodes name = (case map_of nodes name of None \<Rightarrow> None | Some _ \<Rightarrow> Some name)"

text \<open>
  \<open>connectFrom\<close>: for each table the explicit joins, then the implicit join to the
  enclosing table (\<open>parent\<close>, \<open>None\<close> for nil), then the nested tables. The value
  returned by the recursive call is dropped by the source, the store it has changed is
  kept.
\<close>

fun connectFrom :: "nodeRefMap \<Rightarrow> Table list \<Rightarrow> string option \<Rightarrow> panic + (nodeRefMap \<times> error option)" where
  "connectFrom nodes [] parent = Inr (nodes, None)"
| "connectFrom nodes (core_Table n fs cs js sg un # ts) parent =
     (case connectJoins nodes n js of
        Inl p \<Rightarrow> Inl p
      | Inr (nodes1, Some err) \<Rightarrow> Inr (nodes1, Some err)
      | Inr (nodes1, None) \<Rightarrow>
          (case (case parent of
                   None \<Rightarrow> Inr nodes1
                 | Some p \<Rightarrow> addEdgeFromJoin nodes1 p n sg) of
             Inl p \<Rightarrow> Inl p
           | Inr nodes2 \<Rightarrow>
               (case connectFrom nodes2 cs (nodePtr nodes2 n) of
                  Inl p \<Rightarrow> Inl p
                | Inr (nodes3, _) \<Rightarrow> connectFrom nodes3 ts parent)))"

definition rootNodes :: "Table list \<Rightarrow> string list" where
  "rootNodes tables = map Name (filter (\<lambda>table. length (Joins table) = 0) tables)"

definition NewSchemaGraph :: "Table list \<Rightarrow> panic + (SchemaGraph \<times> error option)" where
  "NewSchemaGraph tables =
     (let nodes = createFrom [] tables
      in case connectFrom nodes tables None of
           Inl p \<Rightarrow> Inl p
         | Inr (nodes', Some err) \<Rightarrow>
             Inr (\<lparr>Nodes = rootNodes tables, NodeIndex = nodes'\<rparr>,
                  Some (''failed to create graph: '' @ err))
         | Inr (nodes', None) \<Rightarrow>
             Inr (\<lparr>Nodes = rootNodes tables, NodeIndex = nodes'\<rparr>, None))"

subsection \<open>Traversal\<close>

text \<open>
  The callback of \<open>Traverse\<close> reads the node and works on a state of its own; it
  returns an error or not, and it may panic. \<open>visited\<close> is the set of table names the
  source keeps in a map. The recursion of \<open>visitSchemaNode\<close> is bounded by fuel: one
  unit for each nested call, \<open>None\<close> when it runs out.
\<close>

type_synonym 's visitFn = "SchemaNode \<Rightarrow> 's \<Rightarrow> panic + (error option \<times> 's)"

fun visitSchemaNode ::
    "nat \<Rightarrow> nodeRefMap \<Rightarrow> 's visitFn \<Rightarrow> string \<Rightarrow> string set \<Rightarrow> 's
      \<Rightarrow> (panic + (error option \<times> string set \<times> 's)) option"
  and visitEdges ::
    "nat \<Rightarrow> nodeRefMap \<Rightarrow> 's visitFn \<Rightarrow> SchemaEdge list \<Rightarrow> string set \<Rightarrow> 's
      \<Rightarrow> (panic + (error option \<times> string set \<times> 's)) option"
where
  "visitSchemaNode 0 nodes fnVisit n visited s = None"
| "visitSchemaNode (Suc k) nodes fnVisit n visited s =
     (case map_of nodes n of
        None \<Rightarrow> Some (Inl NilPointer)
      | Some node \<Rightarrow>
          (case fnVisit node s of
             Inl p \<Rightarrow> Some (Inl p)
           | Inr (Some err, s') \<Rightarrow> Some (Inr (Some err, visited, s'))
           | Inr (None, s') \<Rightarrow>
               visitEdges k nodes fnVisit (Edges node) (insert (Name (Table node)) visited) s'))"
| "visitEdges k nodes fnVisit [] visited s = Some (Inr (None, visited, s))"
| "visitEdges k nodes fnVisit (e # es) visited s =
     (case map_of nodes (Node e) of
        None \<Rightarrow> Some (Inl NilPointer)
      | Some en \<Rightarrow>
          if Name (Table en) \<in> visited then visitEdges k nodes fnVisit es visited s
          else
            (case visitSchemaNode k nodes fnVisit (Node e) visited s of
               None \<Rightarrow> None
             | Some (Inl p) \<Rightarrow> Some (Inl p)
             | Some (Inr (Some err, visited', s')) \<Rightarrow> Some (Inr (Some err, visited', s'))
             | Some (Inr (None, visited', s')) \<Rightarrow> visitEdges k nodes fnVisit es visited' s'))"

text \<open>The loop of \<open>Traverse\<close> over the root list of the graph.\<close>

fun traverseNodes ::
    "nat \<Rightarrow> nodeRefMap \<Rightarrow> 's visitFn \<Rightarrow> string list \<Rightarrow> string set \<Rightarrow> 's
      \<Rightarrow> (panic + (error option \<times> 's)) option"
where
  "traverseNodes k nodes fnVisit [] visited s = Some (Inr (None, s))"
| "traverseNodes k nodes fnVisit (n # ns) visited s =
     (case map_of nodes n of
        None \<Rightarrow> Some (Inl NilPointer)
      | Some node \<Rightarrow>
          if Name (Table node) \<in> visited then traverseNodes k nodes fnVisit ns visited s
          else
            (case visitSchemaNode k nodes fnVisit n visited s of
               None \<Rightarrow> None
             | Some (Inl p) \<Rightarrow> Some (Inl p)
             | Some (Inr (Some err, visited', s')) \<Rightarrow>
                 Some (Inr (Some (''failed to traverse schema graph: '' @ err), s'))
             | Some (Inr (None, visited', s')) \<Rightarrow> traverseNodes k nodes fnVisit ns visited' s'))"

definition Traverse ::
    "nat \<Rightarrow> SchemaGraph \<Rightarrow> 's visitFn \<Rightarrow> 's \<Rightarrow> (panic + (error option \<times> 's)) option" where
  "Traverse k g fnVisit s = traverseNodes k (NodeIndex g) fnVisit (Nodes g) {} s"

section \<open>The GraphQL schema (store/graphql.go)\<close>

text \<open>
  The types of the GraphQL library as far as the store package builds them: the scalars
  it names, its own \<open>mapScalar\<close> and \<open>enumOrderBy\<close>, lists, input objects, and the
  pointer to the object type made for a table. There is one object type per entry of
  the map \<open>fields\<close>, so the pointer is the key of that entry, \<open>None\<close> for nil.
  A Go map is an association list here, read with \<open>map_of\<close> and written with
  \<open>AList.update\<close>.
\<close>

datatype gqlType =
    graphql_Boolean
  | graphql_Int
  | graphql_String
  | mapScalar
  | enumOrderBy
  | NewList gqlType
  | ObjectPtr "string option"
  | NewInputObject string "(string \<times> gqlType) list"

type_synonym FieldConfigArgument = "(string \<times> gqlType) list"

record 'r graphqlField =
  Field_Type :: gqlType
  Field_Args :: FieldConfigArgument
  Field_Resolve :: "'r option"

record 'r graphqlObject =
  Object_Name :: string
  Object_Fields :: "(string \<times> 'r graphqlField) list"

record 'r gqlField =
  gql_Type :: "'r graphqlObject option"
  gql_Args :: FieldConfigArgument

type_synonym 'r gqlFields = "(string \<times> 'r gqlField) list"

text \<open>
  Modelled from the spec: the constant \<open>tableIDField\<close> is declared outside the sources
  at hand; the specification names the implicit identifier \<open>_id\<close>.
\<close>

definition tableIDField :: string where
  "tableIDField = ''_id''"

definition filterID :: string where "filterID = ''filter''"
definition filterOnID :: string where "filterOnID = ''filter_on''"
definition firstID :: string where "firstID = ''first''"
definition lastID :: string where "lastID = ''last''"
definition orderByID :: string where "orderByID = ''order_by''"
definition orderByType :: string where "orderByType = ''_order''"

definition filterGreaterThan :: string where "filterGreaterThan = ''_gt''"
definition filterLessThan :: string where "filterLessThan = ''_lt''"
definition filterGreaterThanOrEqualTo :: string where "filterGreaterThanOrEqualTo = ''_gte''"
definition filterLessThanOrEqualTo :: string where "filterLessThanOrEqualTo = ''_lte''"
definition filterIn :: string where "filterIn = ''_in''"
definition filterNotIn :: string where "filterNotIn = ''_not_in''"

definition scalarFilters :: "string list" where
  "scalarFilters =
     [filterGreaterThan, filterLessThan, filterGreaterThanOrEqualTo, filterLessThanOrEqualTo]"

definition listFilters :: "string list" where
  "listFilters = [filterIn, filterNotIn]"

definition graphQLFieldType :: "TableField \<Rightarrow> panic + gqlType" where
  "graphQLFieldType f =
     (let ty = f_Type f
      in if ty = cty_Bool then Inr graphql_Boolean
         else if ty = cty_Number then Inr graphql_Int
         else if ty = cty_String then Inr graphql_String
         else if IsObjectType ty then Inr mapScalar
         else if IsMapType ty then Inr mapScalar
         else Inl (Unsupported ty))"

text \<open>
  \<open>graphQLOrderType\<close> ranges over a map too, but writes each key of it once and with
  one value, so the order of the range does not show in the map it builds; the range is
  taken in the order of the list.
\<close>

definition graphQLOrderType :: "string \<Rightarrow> (string \<times> 'r graphqlField) list \<Rightarrow> gqlType" where
  "graphQLOrderType typeName args =
     NewInputObject (typeName @ orderByType)
       (foldl (\<lambda>flds (n, _). AList.update n enumOrderBy flds) [] args)"

text \<open>
  \<open>graphQLFilterType\<close> ranges over the map \<open>args\<close>, and the order in which Go yields
  the entries of a map is not fixed. The entries come in the order of the list
  \<open>entries\<close>, which the caller chooses.
\<close>

definition scalarFilterLoop :: "string \<Rightarrow> gqlType \<Rightarrow> string list \<Rightarrow> FieldConfigArgument \<Rightarrow> FieldConfigArgument" where
  "scalarFilterLoop n a fs flds = foldl (\<lambda>flds f. AList.update (n @ f) a flds) flds fs"

definition listFilterLoop :: "string \<Rightarrow> gqlType \<Rightarrow> string list \<Rightarrow> FieldConfigArgument \<Rightarrow> FieldConfigArgument" where
  "listFilterLoop n a fs flds = foldl (\<lambda>flds f. AList.update (n @ f) (NewList a) flds) flds fs"

fun filterLoop :: "(string \<times> gqlType) list \<Rightarrow> FieldConfigArgument \<Rightarrow> FieldConfigArgument" where
  "filterLoop [] flds = flds"
| "filterLoop ((n, a) # entries) flds =
     filterLoop entries (listFilterLoop n a listFilters (scalarFilterLoop n a scalarFilters flds))"

definition graphQLFilterType :: "(string \<times> gqlType) list \<Rightarrow> string \<Rightarrow> gqlType" where
  "graphQLFilterType entries typeName = NewInputObject (typeName @ ''_filter'') (filterLoop entries [])"

text \<open>The loop of \<open>addGraphFields\<close> over the declared fields of the table.\<close>

fun tableFieldLoop ::
    "TableField list \<Rightarrow> (string \<times> 'r graphqlField) list \<Rightarrow> FieldConfigArgument
      \<Rightarrow> panic + ((string \<times> 'r graphqlField) list \<times> FieldConfigArgument)" where
  "tableFieldLoop [] typeFields args = Inr (typeFields, args)"
| "tableFieldLoop (f # fs) typeFields args =
     (case graphQLFieldType f of
        Inl p \<Rightarrow> Inl p
      | Inr ft \<Rightarrow>
          tableFieldLoop fs
            (AList.update (f_Name f) \<lparr>Field_Type = ft, Field_Args = [], Field_Resolve = None\<rparr> typeFields)
            (AList.update (f_Name f) ft args))"

text \<open>
  \<open>rangeArgs\<close> gives the order in which the runtime yields the entries of the
  argument map to \<open>graphQLFilterType\<close>.
\<close>

definition addGraphFields ::
    "(FieldConfigArgument \<Rightarrow> (string \<times> gqlType) list) \<Rightarrow> Table \<Rightarrow> 'r gqlFields \<Rightarrow> panic + 'r gqlFields" where
  "addGraphFields rangeArgs t flds =
     (case tableFieldLoop (Fields t) [] [] of
        Inl p \<Rightarrow> Inl p
      | Inr (typeFields0, args0) \<Rightarrow>
          (let typeFields =
                 AList.update tableIDField
                   \<lparr>Field_Type = graphql_String, Field_Args = [], Field_Resolve = None\<rparr> typeFields0;
               args1 = AList.update tableIDField graphql_String args0;
               args2 = AList.update filterID (graphQLFilterType (rangeArgs args1) (Name t)) args1;
               args3 = AList.update orderByID (graphQLOrderType (Name t) typeFields) args2;
               args4 = AList.update filterOnID graphql_Boolean args3;
               args5 = AList.update firstID graphql_Int args4;
               args6 = AList.update lastID graphql_Int args5
           in Inr (AList.update (Name t)
                     \<lparr>gql_Type = Some \<lparr>Object_Name = Name t, Object_Fields = typeFields\<rparr>,
                      gql_Args = args6\<rparr> flds)))"

text \<open>
  The zero value of \<open>gqlField\<close> is what reading a missing key of \<open>fields\<close> gives.
\<close>

definition lookupField :: "'r gqlFields \<Rightarrow> string \<Rightarrow> 'r gqlField" where
  "lookupField flds name =
     (case map_of flds name of None \<Rightarrow> \<lparr>gql_Type = None, gql_Args = []\<rparr> | Some f \<Rightarrow> f)"

definition objectPtr :: "'r gqlFields \<Rightarrow> string \<Rightarrow> string option" where
  "objectPtr flds name =
     (case gql_Type (lookupField flds name) of None \<Rightarrow> None | Some _ \<Rightarrow> Some name)"

text \<open>
  The field that the body of the loop of \<open>addGraphEdges\<close> makes for one edge whose
  destination table is called \<open>dst\<close>.
\<close>

definition edgeField :: "'r gqlFields \<Rightarrow> SchemaEdge \<Rightarrow> string \<Rightarrow> 'r graphqlField" where
  "edgeField flds edge dst =
     (let dstField = lookupField flds dst;
          dstFieldType = ObjectPtr (objectPtr flds dst)
      in \<lparr>Field_Type = (if \<not> isScalar edge then NewList dstFieldType else dstFieldType),
          Field_Args = gql_Args dstField,
          Field_Resolve = None\<rparr>)"

text \<open>
  \<open>AddFieldConfig\<close> of the GraphQL library returns at once for the empty name;
  otherwise it stores the field under its name in the object type, which is a panic when
  the receiver is the nil pointer.
\<close>

definition AddFieldConfig ::
    "string \<Rightarrow> 'r graphqlField \<Rightarrow> 'r graphqlObject option \<Rightarrow> panic + 'r graphqlObject option" where
  "AddFieldConfig fieldName fieldConfig gt =
     (if fieldName = [] then Inr gt
      else (case gt of
              None \<Rightarrow> Inl NilPointer
            | Some obj \<Rightarrow>
                Inr (Some (obj\<lparr>Object_Fields :=
                                 AList.update fieldName fieldConfig (Object_Fields obj)\<rparr>))))"

text \<open>
  The loop of \<open>addGraphEdges\<close>. The object type is reached through the pointer in the
  entry of the node, so the changed object is written back to that entry.
\<close>

fun edgeLoop :: "nodeRefMap \<Rightarrow> string \<Rightarrow> SchemaEdge list \<Rightarrow> 'r gqlFields \<Rightarrow> panic + 'r gqlFields" where
  "edgeLoop nodes name [] flds = Inr flds"
| "edgeLoop nodes name (edge # edges) flds =
     (case map_of nodes (Node edge) of
        None \<Rightarrow> Inl NilPointer
      | Some dn \<Rightarrow>
          (case AddFieldConfig (Name (Table dn)) (edgeField flds edge (Name (Table dn)))
                  (gql_Type (lookupField flds name)) of
             Inl p \<Rightarrow> Inl p
           | Inr gt \<Rightarrow>
               edgeLoop nodes name edges
                 (case map_of flds name of
                    None \<Rightarrow> flds
                  | Some field \<Rightarrow> AList.update name (field\<lparr>gql_Type := gt\<rparr>) flds)))"

definition addGraphEdges :: "nodeRefMap \<Rightarrow> SchemaNode \<Rightarrow> 'r gqlFields \<Rightarrow> panic + 'r gqlFields" where
  "addGraphEdges nodes n flds = edgeLoop nodes (Name (Table n)) (Edges n) flds"

text \<open>
  The value of type \<open>graphql.Schema\<close>: its zero value has no query type.
  \<open>graphql.NewSchema\<close> belongs to the GraphQL library and is a parameter of
  \<open>newGraphQLSchema\<close>.
\<close>

datatype 'r graphqlSchema = graphqlSchema (queryType: "'r graphqlObject option")

text \<open>
  The loop that fills \<open>queryFields\<close> ranges over the map \<open>fields\<close>, taken in the
  order of the list. The object type of an entry is reached through the pointer
  \<open>field.Type\<close>, the key of the entry.
\<close>

fun queryFieldLoop ::
    "'r gqlFields \<Rightarrow> 'r \<Rightarrow> (string \<times> 'r graphqlField) list
      \<Rightarrow> panic + (string \<times> 'r graphqlField) list" where
  "queryFieldLoop [] resolveFn queryFields = Inr queryFields"
| "queryFieldLoop ((k, field) # rest) resolveFn queryFields =
     (case gql_Type field of
        None \<Rightarrow> Inl NilPointer
      | Some obj \<Rightarrow>
          queryFieldLoop rest resolveFn
            (AList.update (Object_Name obj)
               \<lparr>Field_Type = NewList (ObjectPtr (Some k)), Field_Args = gql_Args field,
                Field_Resolve = Some resolveFn\<rparr> queryFields))"

definition newGraphQLSchema ::
    "('r graphqlObject \<Rightarrow> 'r graphqlSchema \<times> error option)
      \<Rightarrow> (FieldConfigArgument \<Rightarrow> (string \<times> gqlType) list)
      \<Rightarrow> nat \<Rightarrow> SchemaGraph \<Rightarrow> 'r
      \<Rightarrow> (panic + ('r graphqlSchema \<times> error option)) option" where
  "newGraphQLSchema NewSchema rangeArgs fuel graph resolveFn =
     (if length (Nodes graph) = 0 then Some (Inr (graphqlSchema None, None))
      else
        (case Traverse fuel graph
                (\<lambda>node flds. case addGraphFields rangeArgs (Table node) flds of
                                Inl p \<Rightarrow> Inl p
                              | Inr flds' \<Rightarrow> Inr (None, flds')) [] of
           None \<Rightarrow> None
         | Some (Inl p) \<Rightarrow> Some (Inl p)
         | Some (Inr (_, flds1)) \<Rightarrow>
             (case Traverse fuel graph
                     (\<lambda>node flds. case addGraphEdges (NodeIndex graph) node flds of
                                     Inl p \<Rightarrow> Inl p
                                   | Inr flds' \<Rightarrow> Inr (None, flds')) flds1 of
                None \<Rightarrow> None
              | Some (Inl p) \<Rightarrow> Some (Inl p)
              | Some (Inr (_, flds2)) \<Rightarrow>
                  (case queryFieldLoop flds2 resolveFn [] of
                     Inl p \<Rightarrow> Some (Inl p)
                   | Inr queryFields \<Rightarrow>
                       Some (Inr (NewSchema
                                    \<lparr>Object_Name = ''query'', Object_Fields = queryFields\<rparr>))))))"

section \<open>The store and its provider\<close>

text \<open>
  Modelled from the spec: the constant \<open>idFieldName\<close> is declared outside the sources
  at hand; the specification names the implicit identifier \<open>_id\<close>.
\<close>

definition idFieldName :: string where
  "idFieldName = ''_id''"

fun addImplicitIDs :: "string option \<Rightarrow> Table list \<Rightarrow> Table list" where
  "addImplicitIDs parent [] = []"
| "addImplicitIDs parent (core_Table n fs cs js sg un # ts) =
     (let fs1 = fs @ [\<lparr>f_Name = idFieldName, f_Type = cty_Number, f_Unique = False\<rparr>];
          fs2 = (case parent of
                   None \<Rightarrow> fs1
                 | Some pn \<Rightarrow>
                     if pn @ ''_id'' \<in> set (map f_Name fs1) then fs1
                     else fs1 @ [\<lparr>f_Name = pn @ ''_id'', f_Type = cty_Number, f_Unique = False\<rparr>])
      in core_Table n fs2 (addImplicitIDs (Some n) cs) js sg un # addImplicitIDs parent ts)"

text \<open>
  The store holds its provider, whose state is the database, and the GraphQL schema in
  memory. The operation of the provider and the builder of the GraphQL schema are
  parameters of \<open>Create\<close>: the provider is an interface, and the builder called by this
  method takes the tables.
\<close>

record ('db, 'sch) Store =
  Store_p :: 'db
  Store_schema :: 'sch

definition Create ::
    "(Table list \<Rightarrow> 'db \<Rightarrow> error option \<times> 'db) \<Rightarrow> (Table list \<Rightarrow> 'sch \<times> error option)
      \<Rightarrow> Table list \<Rightarrow> ('db, 'sch) Store \<Rightarrow> error option \<times> ('db, 'sch) Store" where
  "Create pCreate newSchema tables0 s =
     (let tables = addImplicitIDs None tables0
      in case pCreate tables (Store_p s) of
           (Some err, db) \<Rightarrow> (Some (''failed to create in provider: '' @ err), s\<lparr>Store_p := db\<rparr>)
         | (None, db) \<Rightarrow>
             (case newSchema tables of
                (sch, Some err) \<Rightarrow>
                  (Some (''falied to build GraphQL schema: '' @ err), s\<lparr>Store_p := db\<rparr>)
              | (sch, None) \<Rightarrow> (None, s\<lparr>Store_p := db, Store_schema := sch\<rparr>)))"

text \<open>
  \<open>cockroachdb.Apply\<close>: the transaction runner \<open>ExecuteTx\<close> of the database library
  and \<open>psqlApplySchema\<close>, which is not part of the sources at hand, are parameters.
\<close>

definition Apply ::
    "('conn \<Rightarrow> ('tx \<Rightarrow> error option \<times> 'tx) \<Rightarrow> error option \<times> 'conn)
      \<Rightarrow> ('tx \<Rightarrow> 'bs \<Rightarrow> error option \<times> 'tx) \<Rightarrow> 'bs \<Rightarrow> 'conn \<Rightarrow> error option \<times> 'conn" where
  "Apply ExecuteTx psqlApplySchema bschema conn =
     (case ExecuteTx conn (\<lambda>tx. psqlApplySchema tx bschema) of
        (Some err, conn') \<Rightarrow> (Some (''failed to apply tables: '' @ err), conn')
      | (None, conn') \<Rightarrow> (None, conn'))"

section \<open>Notions used in the statements\<close>

text \<open>The types for which \<open>graphQLFieldType\<close> has a case, and the scalars it returns.\<close>

definition supportedType :: "ctyType \<Rightarrow> bool" where
  "supportedType ty =
     (ty = cty_Bool \<or> ty = cty_Number \<or> ty = cty_String \<or> IsObjectType ty \<or> IsMapType ty)"

definition graphqlScalars :: "gqlType set" where
  "graphqlScalars = {graphql_Boolean, graphql_Int, graphql_String, mapScalar}"

text \<open>
  The scalar that the specification gives to a type: Boolean, Int and String for Bool,
  Number and String, the map scalar for object types and map types, and none for any other
  type. The last declared field of a name, since a later assignment to \<open>typeFields\<close>
  replaces an earlier one, and the field that \<open>addGraphFields\<close> makes of a scalar.
\<close>

fun scalarFor :: "ctyType \<Rightarrow> gqlType option" where
  "scalarFor cty_Bool = Some graphql_Boolean"
| "scalarFor cty_Number = Some graphql_Int"
| "scalarFor cty_String = Some graphql_String"
| "scalarFor (cty_Object _) = Some mapScalar"
| "scalarFor (cty_Map _) = Some mapScalar"
| "scalarFor _ = None"

fun lastFieldNamed :: "TableField list \<Rightarrow> string \<Rightarrow> TableField option" where
  "lastFieldNamed [] n = None"
| "lastFieldNamed (f # fs) n =
     (case lastFieldNamed fs n of
        Some g \<Rightarrow> Some g
      | None \<Rightarrow> if f_Name f = n then Some f else None)"

definition scalarField :: "gqlType \<Rightarrow> 'r graphqlField" where
  "scalarField ty = \<lparr>Field_Type = ty, Field_Args = [], Field_Resolve = None\<rparr>"



text \<open>
  The assignments that the loops of \<open>graphQLFilterType\<close> make, in their order, and a
  list of assignments carried out on a map.
\<close>

definition filterMembers :: "(string \<times> gqlType) list \<Rightarrow> (string \<times> gqlType) list" where
  "filterMembers entries =
     concat (map (\<lambda>(n, a). map (\<lambda>f. (n @ f, a)) scalarFilters
                            @ map (\<lambda>f. (n @ f, NewList a)) listFilters) entries)"

definition assignAll :: "(string \<times> gqlType) list \<Rightarrow> FieldConfigArgument \<Rightarrow> FieldConfigArgument" where
  "assignAll kvs flds = foldl (\<lambda>fl (k, v). AList.update k v fl) flds kvs"

definition allFilters :: "string list" where
  "allFilters = scalarFilters @ listFilters"

text \<open>
  No name of the set is another name of the set followed by \<open>_not\<close>. The arguments of
  a table are its declared fields and the identifier. A range over a map yields each
  entry once, in some order.
\<close>

definition noNotSuffix :: "string set \<Rightarrow> bool" where
  "noNotSuffix names = (\<forall>a\<in>names. a @ ''_not'' \<notin> names)"

definition tableArgNames :: "Table \<Rightarrow> string set" where
  "tableArgNames t = insert tableIDField (f_Name ` set (Fields t))"

definition validRange :: "(FieldConfigArgument \<Rightarrow> (string \<times> gqlType) list) \<Rightarrow> bool" where
  "validRange rangeArgs =
     (\<forall>m. distinct (map fst m) \<longrightarrow> set (rangeArgs m) = set m \<and> distinct (map fst (rangeArgs m)))"

text \<open>
  The tables of a schema with the nested ones, and their names: the declared tables.
  \<open>joinsDeclared\<close> says that every explicit join of every declared table names a
  declared table.
\<close>

fun allTables :: "Table list \<Rightarrow> Table list" where
  "allTables [] = []"
| "allTables (core_Table n fs cs js sg un # ts) =
     core_Table n fs cs js sg un # allTables cs @ allTables ts"

definition tableNames :: "Table list \<Rightarrow> string list" where
  "tableNames ts = map Name (allTables ts)"

definition joinsDeclared :: "Table list \<Rightarrow> bool" where
  "joinsDeclared tables =
     (\<forall>t\<in>set (allTables tables). \<forall>j\<in>set (Joins t). j_Table j \<in> set (tableNames tables))"

text \<open>
  The edges of the node stored under a key. \<open>joinEdges\<close> are the edges that one join of
  \<open>child\<close> to \<open>parent\<close> gives to the node \<open>k\<close>; \<open>joinPairs\<close> lists the joins of a
  schema, explicit and by nesting, as parent, child and the single flag, in the order in
  which \<open>connectFrom\<close> meets them; \<open>pairEdges\<close> are the edges they give to \<open>k\<close>.
\<close>

definition edgesOf :: "nodeRefMap \<Rightarrow> string \<Rightarrow> SchemaEdge list" where
  "edgesOf nodes k = (case map_of nodes k of None \<Rightarrow> [] | Some n \<Rightarrow> Edges n)"

definition joinEdges :: "string \<Rightarrow> string \<Rightarrow> bool \<Rightarrow> string \<Rightarrow> SchemaEdge list" where
  "joinEdges parent child single k =
     (if k = parent then [\<lparr>Node = child, Rel = (if single then OneToOne else OneToMany)\<rparr>] else [])
     @ (if k = child then [\<lparr>Node = parent, Rel = BelongsTo\<rparr>] else [])"

fun joinPairs :: "string option \<Rightarrow> Table list \<Rightarrow> (string \<times> string \<times> bool) list" where
  "joinPairs parent [] = []"
| "joinPairs parent (core_Table n fs cs js sg un # ts) =
     map (\<lambda>j. (j_Table j, n, j_Single j)) js
     @ (case parent of None \<Rightarrow> [] | Some p \<Rightarrow> [(p, n, sg)])
     @ joinPairs (Some n) cs
     @ joinPairs parent ts"

definition pairEdges :: "(string \<times> string \<times> bool) list \<Rightarrow> string \<Rightarrow> SchemaEdge list" where
  "pairEdges pairs k = concat (map (\<lambda>(p, c, s). joinEdges p c s k) pairs)"


text \<open>What \<open>NewSchemaGraph\<close> returns for a schema: the error, and the edges of a node.\<close>

definition builtEdges :: "Table list \<Rightarrow> string \<Rightarrow> SchemaEdge list option" where
  "builtEdges tables k =
     (case NewSchemaGraph tables of Inl _ \<Rightarrow> None | Inr (g, _) \<Rightarrow> Some (edgesOf (NodeIndex g) k))"

definition buildError :: "Table list \<Rightarrow> error option option" where
  "buildError tables = (case NewSchemaGraph tables of Inl _ \<Rightarrow> None | Inr (_, e) \<Rightarrow> Some e)"

text \<open>
  The traversal as the specification words it: a depth-first search in pre-order that
  visits each node at most once and takes the edges of a node in the order of their
  declaration. It is written with a stack of nodes still to visit: a node on top that is
  visited already is dropped, another one is visited and its successors are put on top.
  \<open>succs\<close> gives the successors of a node: \<open>forwardSuccsOf\<close> follows the OneToMany and
  OneToOne edges only, \<open>succsOf\<close> follows every edge. Only nodes of \<open>universe\<close>, the
  keys of the graph, are visited.
\<close>

definition succsOf :: "nodeRefMap \<Rightarrow> string \<Rightarrow> string list" where
  "succsOf nodes k = map Node (edgesOf nodes k)"

definition forwardSuccsOf :: "nodeRefMap \<Rightarrow> string \<Rightarrow> string list" where
  "forwardSuccsOf nodes k = map Node (filter (\<lambda>e. Rel e \<noteq> BelongsTo) (edgesOf nodes k))"

function preorderDFS ::
    "(string \<Rightarrow> string list) \<Rightarrow> string list \<Rightarrow> string list \<Rightarrow> string set \<Rightarrow> string list" where
  "preorderDFS succs universe [] visited = []"
| "preorderDFS succs universe (x # stack) visited =
     (if x \<in> visited \<or> x \<notin> set universe then preorderDFS succs universe stack visited
      else x # preorderDFS succs universe (succs x @ stack) (insert x visited))"
  by pat_completeness auto
termination
proof (relation "inv_image (less_than <*lex*> less_than)
                   (\<lambda>(succs, universe, stack, visited). (card (set universe - visited), length stack))",
       goal_cases)
  case 1
  show ?case by (intro wf_inv_image wf_lex_prod wf_less_than)
next
  case (2 succs universe x stack visited)
  then show ?case by simp
next
  case (3 succs universe x stack visited)
  then have "set universe - insert x visited \<subset> set universe - visited" by auto
  then have "card (set universe - insert x visited) < card (set universe - visited)"
    by (intro psubset_card_mono) auto
  then show ?case by simp
qed

text \<open>The callback that writes down the name of each node it is applied to.\<close>

definition recordVisit :: "string list visitFn" where
  "recordVisit node trace = Inr (None, trace @ [Name (Table node)])"

text \<open>
  A graph whose pointers are in order: every node is stored under the name of its table,
  every edge and every root points to a stored node. \<open>graphShape\<close> is the part of it
  that concerns the store.
\<close>

definition graphShape :: "nodeRefMap \<Rightarrow> bool" where
  "graphShape nodes =
     ((\<forall>k n. map_of nodes k = Some n \<longrightarrow> Name (Table n) = k)
      \<and> (\<forall>k. Node ` set (edgesOf nodes k) \<subseteq> fst ` set nodes))"

definition wellFormed :: "SchemaGraph \<Rightarrow> bool" where
  "wellFormed g =
     ((\<forall>k n. map_of (NodeIndex g) k = Some n \<longrightarrow> Name (Table n) = k)
      \<and> (\<forall>k. Node ` set (edgesOf (NodeIndex g) k) \<subseteq> fst ` set (NodeIndex g))
      \<and> set (Nodes g) \<subseteq> fst ` set (NodeIndex g))"

text \<open>
  With fuel \<open>k\<close>, \<open>visitSchemaNode\<close> on a node not yet visited, and \<open>visitEdges\<close> on a
  list of edges, return when at most \<open>k\<close> nodes are not yet visited; what they record
  is the part of the search that the node, or the targets of the edges, on top of any
  stack give.
\<close>

definition nodeReturns :: "nat \<Rightarrow> nodeRefMap \<Rightarrow> bool" where
  "nodeReturns k nodes =
     (\<forall>n V tr. n \<in> fst ` set nodes \<longrightarrow> n \<notin> V \<longrightarrow> card (fst ` set nodes - V) \<le> k \<longrightarrow>
        (\<exists>V' t. visitSchemaNode k nodes recordVisit n V tr = Some (Inr (None, V', tr @ t))
               \<and> V \<subseteq> V'
               \<and> (\<forall>stack. preorderDFS (succsOf nodes) (map fst nodes) (n # stack) V
                            = t @ preorderDFS (succsOf nodes) (map fst nodes) stack V')))"

definition edgesReturn :: "nat \<Rightarrow> nodeRefMap \<Rightarrow> bool" where
  "edgesReturn k nodes =
     (\<forall>es V tr. Node ` set es \<subseteq> fst ` set nodes \<longrightarrow> card (fst ` set nodes - V) \<le> k \<longrightarrow>
        (\<exists>V' t. visitEdges k nodes recordVisit es V tr = Some (Inr (None, V', tr @ t))
               \<and> V \<subseteq> V'
               \<and> (\<forall>stack. preorderDFS (succsOf nodes) (map fst nodes) (map Node es @ stack) V
                            = t @ preorderDFS (succsOf nodes) (map fst nodes) stack V')))"

section \<open>Example schemas\<close>

definition join :: "string \<Rightarrow> TableJoin" where
  "join target = \<lparr>j_Table = target, j_Single = False, j_Unique = False\<rparr>"

definition tbl :: "string \<Rightarrow> Table list \<Rightarrow> TableJoin list \<Rightarrow> Table" where
  "tbl name nested joins = core_Table name [] nested joins False False"

text \<open>Two top-level tables that join each other.\<close>

definition cycleTables :: "Table list" where
  "cycleTables = [tbl ''A'' [] [join ''B''], tbl ''B'' [] [join ''A'']]"

definition cycleGraph :: SchemaGraph where
  "cycleGraph =
     \<lparr>Nodes = [],
      NodeIndex =
        [(''A'', \<lparr>Table = tbl ''A'' [] [join ''B''],
                  Edges = [\<lparr>Node = ''B'', Rel = BelongsTo\<rparr>, \<lparr>Node = ''B'', Rel = OneToMany\<rparr>]\<rparr>),
         (''B'', \<lparr>Table = tbl ''B'' [] [join ''A''],
                  Edges = [\<lparr>Node = ''A'', Rel = OneToMany\<rparr>, \<lparr>Node = ''A'', Rel = BelongsTo\<rparr>]\<rparr>)]\<rparr>"

text \<open>A table with a field of a list type.\<close>

definition listTable :: Table where
  "listTable =
     core_Table ''repo''
       [\<lparr>f_Name = ''tags'', f_Type = cty_List cty_String, f_Unique = False\<rparr>] [] [] False False"

text \<open>
  A table with the fields \<open>x\<close> and \<open>x_not\<close>, its arguments, and the type of a member
  of the filter input object that \<open>addGraphFields\<close> makes for a table.
\<close>

definition collidingTable :: Table where
  "collidingTable =
     core_Table ''t''
       [\<lparr>f_Name = ''x'', f_Type = cty_String, f_Unique = False\<rparr>,
        \<lparr>f_Name = ''x_not'', f_Type = cty_Number, f_Unique = False\<rparr>] [] [] False False"

definition collidingArgs :: FieldConfigArgument where
  "collidingArgs = [(''x'', graphql_String), (''x_not'', graphql_Int), (''_id'', graphql_String)]"

definition filterMemberOf ::
    "(FieldConfigArgument \<Rightarrow> (string \<times> gqlType) list) \<Rightarrow> Table \<Rightarrow> string \<Rightarrow> gqlType option" where
  "filterMemberOf rangeArgs t m =
     (case addGraphFields rangeArgs t ([] :: unit gqlFields) of
        Inl _ \<Rightarrow> None
      | Inr flds' \<Rightarrow>
          (case map_of flds' (Name t) of
             None \<Rightarrow> None
           | Some fa \<Rightarrow>
               (case map_of (gql_Args fa) filterID of
                  Some (NewInputObject _ members) \<Rightarrow> map_of members m
                | _ \<Rightarrow> None)))"

text \<open>A table whose fields have the five types that \<open>graphQLFieldType\<close> maps.\<close>

definition zooTable :: Table where
  "zooTable =
     core_Table ''zoo''
       [\<lparr>f_Name = ''name'', f_Type = cty_String, f_Unique = True\<rparr>,
        \<lparr>f_Name = ''open'', f_Type = cty_Bool, f_Unique = False\<rparr>,
        \<lparr>f_Name = ''capacity'', f_Type = cty_Number, f_Unique = False\<rparr>,
        \<lparr>f_Name = ''meta'', f_Type = cty_Object [(''city'', cty_String)], f_Unique = False\<rparr>,
        \<lparr>f_Name = ''labels'', f_Type = cty_Map cty_String, f_Unique = False\<rparr>] [] [] False False"




text \<open>A nested table that joins a table nobody declares, and the same join at top level.\<close>

definition nestedUnknownTables :: "Table list" where
  "nestedUnknownTables = [tbl ''A'' [tbl ''B'' [] [join ''X'']] []]"

definition topUnknownTables :: "Table list" where
  "topUnknownTables = [tbl ''A'' [] [], tbl ''B'' [] [join ''X'']]"



text \<open>
  An unknown join at top level before a join between declared tables, and an unknown join
  of a nested table before its sibling.
\<close>

definition abortedTables :: "Table list" where
  "abortedTables = [tbl ''T1'' [] [join ''X''], tbl ''T2'' [] [join ''T1'']]"

definition skippedTables :: "Table list" where
  "skippedTables = [tbl ''A'' [tbl ''B'' [] [join ''X''], tbl ''C'' [] []] []]"

text \<open>A zoo with one shop nested in it, and keepers that join the zoo.\<close>

definition keeperTables :: "Table list" where
  "keeperTables =
     [tbl ''zoo'' [core_Table ''shop'' [] [] [] True False] [],
      tbl ''keeper'' [] [\<lparr>j_Table = ''zoo'', j_Single = False, j_Unique = False\<rparr>]]"

text \<open>Two roots, a table that joins both of them, and a table that joins the first.\<close>

definition travTables :: "Table list" where
  "travTables =
     [tbl ''A'' [] [], tbl ''B'' [] [], tbl ''C'' [] [join ''A'', join ''B''], tbl ''E'' [] [join ''A'']]"

definition travGraph :: SchemaGraph where
  "travGraph =
     \<lparr>Nodes = [''A'', ''B''],
      NodeIndex =
        [(''A'', \<lparr>Table = tbl ''A'' [] [],
                  Edges = [\<lparr>Node = ''C'', Rel = OneToMany\<rparr>, \<lparr>Node = ''E'', Rel = OneToMany\<rparr>]\<rparr>),
         (''B'', \<lparr>Table = tbl ''B'' [] [],
                  Edges = [\<lparr>Node = ''C'', Rel = OneToMany\<rparr>]\<rparr>),
         (''C'', \<lparr>Table = tbl ''C'' [] [join ''A'', join ''B''],
                  Edges = [\<lparr>Node = ''A'', Rel = BelongsTo\<rparr>, \<lparr>Node = ''B'', Rel = BelongsTo\<rparr>]\<rparr>),
         (''E'', \<lparr>Table = tbl ''E'' [] [join ''A''],
                  Edges = [\<lparr>Node = ''A'', Rel = BelongsTo\<rparr>]\<rparr>)]\<rparr>"

section \<open>Properties\<close>

subsection \<open>Root nodes\<close>

lemma rootNodes_all_joined: "\<forall>t\<in>set tables. Joins t \<noteq> [] \<Longrightarrow> rootNodes tables = []"
  by (induction tables) (auto simp: rootNodes_def)

lemma NewSchemaGraph_Nodes: "NewSchemaGraph tables = Inr (g, e) \<Longrightarrow> Nodes g = rootNodes tables"
  by (auto simp: NewSchemaGraph_def Let_def split: sum.splits prod.splits option.splits)

lemma NewSchemaGraph_cycleTables: "NewSchemaGraph cycleTables = Inr (cycleGraph, None)"
  by (simp add: cycleTables_def cycleGraph_def tbl_def join_def NewSchemaGraph_def
      addEdgeFromJoin_def rootNodes_def nodePtr_def)

text \<open>
  C10. A graph whose root list is empty gives the zero value of the GraphQL schema and no
  error, whatever the library would make of a query type, and without a single step of
  traversal. The root list is empty whenever every top-level table declares a join,
  which covers the empty table list and tables joined in a cycle.
\<close>

theorem newGraphQLSchema_without_roots:
  "(Nodes graph = [] \<longrightarrow>
      newGraphQLSchema NewSchema rangeArgs fuel graph resolveFn
        = Some (Inr (graphqlSchema None, None)))
   \<and> ((\<forall>t\<in>set tables. Joins t \<noteq> []) \<longrightarrow> NewSchemaGraph tables = Inr (g, e) \<longrightarrow>
        Nodes g = [] \<and>
        newGraphQLSchema NewSchema rangeArgs fuel g resolveFn
          = Some (Inr (graphqlSchema None, None)))"
proof -
  have a: "newGraphQLSchema NewSchema rangeArgs fuel gr resolveFn
             = Some (Inr (graphqlSchema None, None))"
    if "Nodes gr = []" for gr
    using that by (simp add: newGraphQLSchema_def)
  have b: "Nodes g = []"
    if "\<forall>t\<in>set tables. Joins t \<noteq> []" "NewSchemaGraph tables = Inr (g, e)"
    using that NewSchemaGraph_Nodes rootNodes_all_joined by metis
  show ?thesis using a b by blast
qed

theorem newGraphQLSchema_without_roots_witness:
  "Nodes \<lparr>Nodes = [], NodeIndex = []\<rparr> = []
   \<and> newGraphQLSchema (\<lambda>q. (graphqlSchema (Some q), None)) (\<lambda>m. m) 0
        \<lparr>Nodes = [], NodeIndex = []\<rparr> () = Some (Inr (graphqlSchema None, None))
   \<and> list_all (\<lambda>t. Joins t \<noteq> []) cycleTables
   \<and> NewSchemaGraph cycleTables = Inr (cycleGraph, None)
   \<and> Nodes cycleGraph = []
   \<and> newGraphQLSchema (\<lambda>q. (graphqlSchema (Some q), None)) (\<lambda>m. m) 0 cycleGraph ()
        = Some (Inr (graphqlSchema None, None))"
proof -
  have h1: "\<forall>t\<in>set cycleTables. Joins t \<noteq> []"
    by (simp add: cycleTables_def tbl_def)
  show ?thesis
    using h1 NewSchemaGraph_cycleTables
      newGraphQLSchema_without_roots
        [of "\<lparr>Nodes = [], NodeIndex = []\<rparr>" "\<lambda>q. (graphqlSchema (Some q), None)" "\<lambda>m. m" 0 "()"
            cycleTables cycleGraph None]
    by (simp add: list_all_iff)
qed

subsection \<open>Applying a schema\<close>

text \<open>
  C8. When \<open>Create\<close> returns an error, from the provider or from the builder of the
  GraphQL schema, the schema in memory is the one from before. With
  \<open>cockroachdb.Apply\<close> as the operation of the provider, the state of the database
  after \<open>Create\<close> is the one that a single run of the transaction runner leaves, with
  \<open>psqlApplySchema\<close> as its body.
\<close>

theorem Create_error_keeps_schema:
  "(fst (Create pCreate newSchema tables s) \<noteq> None \<longrightarrow>
      Store_schema (snd (Create pCreate newSchema tables s)) = Store_schema s)
   \<and> Store_p (snd (Create (\<lambda>ts. Apply ExecuteTx psqlApplySchema (toSchema ts)) newSchema tables s))
       = snd (ExecuteTx (Store_p s)
                (\<lambda>tx. psqlApplySchema tx (toSchema (addImplicitIDs None tables))))"
  by (auto simp: Create_def Apply_def Let_def split: prod.splits option.splits)

theorem Create_error_keeps_schema_witness:
  "fst (Create (\<lambda>ts db. (Some ''connection refused'', db)) (\<lambda>ts. (Suc 0, None)) []
          \<lparr>Store_p = (0::nat), Store_schema = (7::nat)\<rparr>) \<noteq> None
   \<and> Store_schema (snd (Create (\<lambda>ts db. (Some ''connection refused'', db)) (\<lambda>ts. (Suc 0, None)) []
          \<lparr>Store_p = (0::nat), Store_schema = (7::nat)\<rparr>)) = 7"
proof -
  have h: "fst (Create (\<lambda>ts db. (Some ''connection refused'', db)) (\<lambda>ts. (Suc 0, None)) []
          \<lparr>Store_p = (0::nat), Store_schema = (7::nat)\<rparr>) \<noteq> None"
    by (simp add: Create_def)
  have "Store_schema (snd (Create (\<lambda>ts db. (Some ''connection refused'', db)) (\<lambda>ts. (Suc 0, None)) []
          \<lparr>Store_p = (0::nat), Store_schema = (7::nat)\<rparr>))
        = Store_schema \<lparr>Store_p = (0::nat), Store_schema = (7::nat)\<rparr>"
    using Create_error_keeps_schema
      [of "\<lambda>ts db. (Some ''connection refused'', db)" "\<lambda>ts. (Suc 0, None)" "[]"
          "\<lparr>Store_p = (0::nat), Store_schema = (7::nat)\<rparr>"] h
    by blast
  then show ?thesis using h by simp
qed

subsection \<open>Fields of a table in the GraphQL schema\<close>

lemma graphQLFieldType_total_iff:
  "(\<exists>ft. graphQLFieldType f = Inr ft) = supportedType (f_Type f)"
  by (auto simp: graphQLFieldType_def supportedType_def Let_def)

lemma graphQLFieldType_scalar:
  "graphQLFieldType f = Inr ft \<Longrightarrow> ft \<in> graphqlScalars"
  by (auto simp: graphQLFieldType_def graphqlScalars_def Let_def split: if_splits)

lemma tableFieldLoop_ok:
  "\<forall>f\<in>set fs. supportedType (f_Type f) \<Longrightarrow>
   \<exists>tf' args'. tableFieldLoop fs tf args = Inr (tf', args')"
proof (induction fs arbitrary: tf args)
  case Nil
  then show ?case by simp
next
  case (Cons f fs)
  then obtain ft where "graphQLFieldType f = Inr ft"
    using graphQLFieldType_total_iff[of f] by auto
  then show ?case using Cons by simp
qed

lemma tableFieldLoop_keys:
  "tableFieldLoop fs tf args = Inr (tf', args') \<Longrightarrow>
   fst ` set tf' = fst ` set tf \<union> f_Name ` set fs \<and> fst ` set args' = fst ` set args \<union> f_Name ` set fs"
proof (induction fs arbitrary: tf args)
  case Nil
  then show ?case by simp
next
  case (Cons f fs)
  then show ?case
    by (auto simp: dom_update split: sum.splits)
qed

lemma tableFieldLoop_types:
  "tableFieldLoop fs tf args = Inr (tf', args') \<Longrightarrow> map_of tf' n = Some fd \<Longrightarrow>
   map_of tf n = Some fd \<or> (\<exists>f\<in>set fs. f_Name f = n \<and> graphQLFieldType f = Inr (Field_Type fd))"
proof (induction fs arbitrary: tf args)
  case Nil
  then show ?case by simp
next
  case (Cons f fs)
  from Cons.prems obtain ft where ft: "graphQLFieldType f = Inr ft"
    by (auto split: sum.splits)
  let ?tf1 = "AList.update (f_Name f) \<lparr>Field_Type = ft, Field_Args = [], Field_Resolve = None\<rparr> tf"
  have "tableFieldLoop fs ?tf1 (AList.update (f_Name f) ft args) = Inr (tf', args')"
    using Cons.prems ft by simp
  from Cons.IH[OF this Cons.prems(2)]
  show ?case using ft by (auto simp: update_conv' split: if_splits)
qed

lemma addGraphFields_supported_fields:
  assumes "\<forall>f\<in>set (Fields t). supportedType (f_Type f)"
  shows "\<exists>flds' typeFields args.
           addGraphFields rangeArgs t (flds :: 'r gqlFields) = Inr flds'
         \<and> map_of flds' (Name t)
             = Some \<lparr>gql_Type = Some \<lparr>Object_Name = Name t, Object_Fields = typeFields\<rparr>, gql_Args = args\<rparr>
         \<and> fst ` set typeFields = insert tableIDField (f_Name ` set (Fields t))
         \<and> map_of typeFields tableIDField
             = Some \<lparr>Field_Type = graphql_String, Field_Args = [], Field_Resolve = None\<rparr>
         \<and> (\<forall>n fd. map_of typeFields n = Some fd \<longrightarrow> n \<noteq> tableIDField \<longrightarrow>
               Field_Type fd \<in> graphqlScalars \<and>
               (\<exists>f\<in>set (Fields t). f_Name f = n \<and> graphQLFieldType f = Inr (Field_Type fd)))"
proof -
  obtain tf0 :: "(string \<times> 'r graphqlField) list" and args0 where loop: "tableFieldLoop (Fields t) [] [] = Inr (tf0, args0)"
    using tableFieldLoop_ok[OF assms] by blast
  let ?tf = "AList.update tableIDField
               \<lparr>Field_Type = graphql_String, Field_Args = [], Field_Resolve = None\<rparr> tf0"
  have keys: "fst ` set ?tf = insert tableIDField (f_Name ` set (Fields t))"
    using tableFieldLoop_keys[OF loop] by (simp add: dom_update)
  have id: "map_of ?tf tableIDField
             = Some \<lparr>Field_Type = graphql_String, Field_Args = [], Field_Resolve = None\<rparr>"
    by (simp add: update_conv')
  have types: "Field_Type fd \<in> graphqlScalars \<and>
      (\<exists>f\<in>set (Fields t). f_Name f = n \<and> graphQLFieldType f = Inr (Field_Type fd))"
    if "map_of ?tf n = Some fd" "n \<noteq> tableIDField" for n fd
  proof -
    from that have "map_of tf0 n = Some fd" by (simp add: update_conv')
    from tableFieldLoop_types[OF loop this]
    obtain f where "f \<in> set (Fields t)" "f_Name f = n" "graphQLFieldType f = Inr (Field_Type fd)"
      by auto
    then show ?thesis using graphQLFieldType_scalar by blast
  qed
  show ?thesis
    using loop keys id types
    by (simp add: addGraphFields_def Let_def update_conv')
qed

lemma graphQLFieldType_scalarFor:
  "graphQLFieldType f =
     (case scalarFor (f_Type f) of Some s \<Rightarrow> Inr s | None \<Rightarrow> Inl (Unsupported (f_Type f)))"
  by (cases "f_Type f") (simp_all add: graphQLFieldType_def)

lemma graphQLFieldType_cases:
  "(f_Type f = cty_Bool \<longrightarrow> graphQLFieldType f = Inr graphql_Boolean)
   \<and> (f_Type f = cty_Number \<longrightarrow> graphQLFieldType f = Inr graphql_Int)
   \<and> (f_Type f = cty_String \<longrightarrow> graphQLFieldType f = Inr graphql_String)
   \<and> (IsObjectType (f_Type f) \<longrightarrow> graphQLFieldType f = Inr mapScalar)
   \<and> (IsMapType (f_Type f) \<longrightarrow> graphQLFieldType f = Inr mapScalar)
   \<and> (\<not> supportedType (f_Type f) \<longrightarrow> graphQLFieldType f = Inl (Unsupported (f_Type f)))"
  by (cases "f_Type f") (simp_all add: graphQLFieldType_def supportedType_def)

lemma tableFieldLoop_exact:
  assumes "tableFieldLoop fs tf args = Inr (tf', args')"
  shows "map_of tf' n =
           (case lastFieldNamed fs n of
              None \<Rightarrow> map_of tf n
            | Some f \<Rightarrow> map_option scalarField (scalarFor (f_Type f)))
         \<and> map_of args' n =
           (case lastFieldNamed fs n of
              None \<Rightarrow> map_of args n
            | Some f \<Rightarrow> scalarFor (f_Type f))"
  using assms
proof (induction fs arbitrary: tf args)
  case Nil
  then show ?case by simp
next
  case (Cons f fs)
  from Cons.prems obtain ft where ft: "graphQLFieldType f = Inr ft"
    by (auto split: sum.splits)
  then have sf: "scalarFor (f_Type f) = Some ft"
    by (simp add: graphQLFieldType_scalarFor split: option.splits)
  let ?tf1 = "AList.update (f_Name f) \<lparr>Field_Type = ft, Field_Args = [], Field_Resolve = None\<rparr> tf"
  let ?args1 = "AList.update (f_Name f) ft args"
  have run: "tableFieldLoop fs ?tf1 ?args1 = Inr (tf', args')"
    using Cons.prems ft by simp
  from Cons.IH[OF run]
  show ?case using sf
    by (auto simp: update_conv' scalarField_def split: option.splits)
qed

lemma tableFieldLoop_panic:
  "find (\<lambda>f. \<not> supportedType (f_Type f)) fs = Some g \<Longrightarrow>
   tableFieldLoop fs tf args = Inl (Unsupported (f_Type g))"
proof (induction fs arbitrary: tf args)
  case Nil
  then show ?case by simp
next
  case (Cons f fs)
  show ?case
  proof (cases "supportedType (f_Type f)")
    case True
    then obtain ft where ft: "graphQLFieldType f = Inr ft"
      using graphQLFieldType_total_iff[of f] by blast
    have "find (\<lambda>f. \<not> supportedType (f_Type f)) fs = Some g"
      using Cons.prems True by simp
    from Cons.IH[OF this] show ?thesis using ft by simp
  next
    case False
    then have "g = f" using Cons.prems by simp
    moreover have "graphQLFieldType f = Inl (Unsupported (f_Type f))"
      using False graphQLFieldType_cases[of f] by blast
    ultimately show ?thesis by simp
  qed
qed

lemma addGraphFields_exact_fields:
  assumes "\<forall>f\<in>set (Fields t). supportedType (f_Type f)"
  shows "\<exists>flds' typeFields args.
           addGraphFields rangeArgs t (flds :: 'r gqlFields) = Inr flds'
         \<and> map_of flds' (Name t)
             = Some \<lparr>gql_Type = Some \<lparr>Object_Name = Name t, Object_Fields = typeFields\<rparr>, gql_Args = args\<rparr>
         \<and> fst ` set typeFields = insert tableIDField (f_Name ` set (Fields t))
         \<and> map_of typeFields tableIDField
             = Some \<lparr>Field_Type = graphql_String, Field_Args = [], Field_Resolve = None\<rparr>
         \<and> (\<forall>n fd. map_of typeFields n = Some fd \<longrightarrow> n \<noteq> tableIDField \<longrightarrow>
               Field_Type fd \<in> graphqlScalars \<and>
               (\<exists>f\<in>set (Fields t). f_Name f = n \<and> graphQLFieldType f = Inr (Field_Type fd)))
         \<and> (\<forall>n. map_of typeFields n =
               (if n = tableIDField then Some (scalarField graphql_String)
                else (case lastFieldNamed (Fields t) n of
                        None \<Rightarrow> None
                      | Some f \<Rightarrow> map_option scalarField (scalarFor (f_Type f)))))"
proof -
  obtain tf0 :: "(string \<times> 'r graphqlField) list" and args0 where
    loop: "tableFieldLoop (Fields t) [] [] = Inr (tf0, args0)"
    using tableFieldLoop_ok[OF assms] by blast
  let ?tf = "AList.update tableIDField
               \<lparr>Field_Type = graphql_String, Field_Args = [], Field_Resolve = None\<rparr> tf0"
  have keys: "fst ` set ?tf = insert tableIDField (f_Name ` set (Fields t))"
    using tableFieldLoop_keys[OF loop] by (simp add: dom_update)
  have id: "map_of ?tf tableIDField
             = Some \<lparr>Field_Type = graphql_String, Field_Args = [], Field_Resolve = None\<rparr>"
    by (simp add: update_conv')
  have types: "Field_Type fd \<in> graphqlScalars \<and>
      (\<exists>f\<in>set (Fields t). f_Name f = n \<and> graphQLFieldType f = Inr (Field_Type fd))"
    if "map_of ?tf n = Some fd" "n \<noteq> tableIDField" for n fd
  proof -
    from that have "map_of tf0 n = Some fd" by (simp add: update_conv')
    from tableFieldLoop_types[OF loop this]
    obtain f where "f \<in> set (Fields t)" "f_Name f = n" "graphQLFieldType f = Inr (Field_Type fd)"
      by auto
    then show ?thesis using graphQLFieldType_scalar by blast
  qed
  have exact: "map_of ?tf n =
               (if n = tableIDField then Some (scalarField graphql_String)
                else (case lastFieldNamed (Fields t) n of
                        None \<Rightarrow> None
                      | Some f \<Rightarrow> map_option scalarField (scalarFor (f_Type f))))" for n
    using tableFieldLoop_exact[OF loop, of n]
    by (auto simp: update_conv' scalarField_def split: option.splits)
  have "\<exists>args. addGraphFields rangeArgs t flds
          = Inr (AList.update (Name t)
                   \<lparr>gql_Type = Some \<lparr>Object_Name = Name t, Object_Fields = ?tf\<rparr>,
                    gql_Args = args\<rparr> flds)"
    unfolding addGraphFields_def Let_def loop sum.case prod.case by (rule exI) (rule refl)
  then obtain args where
    run: "addGraphFields rangeArgs t flds
          = Inr (AList.update (Name t)
                   \<lparr>gql_Type = Some \<lparr>Object_Name = Name t, Object_Fields = ?tf\<rparr>,
                    gql_Args = args\<rparr> flds)"
    by blast
  have entry: "map_of (AList.update (Name t)
                   \<lparr>gql_Type = Some \<lparr>Object_Name = Name t, Object_Fields = ?tf\<rparr>,
                    gql_Args = args\<rparr> flds) (Name t)
        = Some \<lparr>gql_Type = Some \<lparr>Object_Name = Name t, Object_Fields = ?tf\<rparr>, gql_Args = args\<rparr>"
    by (simp add: update_conv')
  have types': "\<forall>n fd. map_of ?tf n = Some fd \<longrightarrow> n \<noteq> tableIDField \<longrightarrow>
               Field_Type fd \<in> graphqlScalars \<and>
               (\<exists>f\<in>set (Fields t). f_Name f = n \<and> graphQLFieldType f = Inr (Field_Type fd))"
    using types by blast
  have exact': "\<forall>n. map_of ?tf n =
               (if n = tableIDField then Some (scalarField graphql_String)
                else (case lastFieldNamed (Fields t) n of
                        None \<Rightarrow> None
                      | Some f \<Rightarrow> map_option scalarField (scalarFor (f_Type f))))"
    using exact by blast
  show ?thesis
    by (intro exI conjI) (rule run, rule entry, rule keys, rule id, rule types', rule exact')
qed

lemma addGraphFields_panic:
  "find (\<lambda>f. \<not> supportedType (f_Type f)) (Fields t) = Some g \<Longrightarrow>
   addGraphFields rangeArgs t flds = Inl (Unsupported (f_Type g))"
  by (simp add: addGraphFields_def tableFieldLoop_panic)


text \<open>
  C4, as it is written: every field of one of the six types is mapped to a scalar and
  gets its field in the object type without a panic. A field of a list type refutes it:
  \<open>graphQLFieldType\<close> has no case for lists and panics, and \<open>addGraphFields\<close> with it.
\<close>

theorem graphQLFieldType_list_counterexample:
  "graphQLFieldType \<lparr>f_Name = ''tags'', f_Type = cty_List cty_String, f_Unique = False\<rparr>
     = Inl (Unsupported (cty_List cty_String))
   \<and> addGraphFields (\<lambda>m. m) listTable ([] :: unit gqlFields)
     = Inl (Unsupported (cty_List cty_String))"
  by (simp add: graphQLFieldType_def addGraphFields_def listTable_def)

text \<open>
  C4, amended: \<open>graphQLFieldType\<close> returns Boolean for Bool, Int for Number, String
  for String and the map scalar for every object type and every map type; for every other
  type it panics with that type, so that it returns a scalar exactly for the five kinds of
  type. For a table whose declared fields all have such a type \<open>addGraphFields\<close> does
  not panic. The object type it makes is named after the table; its fields are the names
  of the declared fields and the identifier; the identifier is a String, and every other
  name carries exactly the scalar that the specification gives to the type of the last
  declared field of that name, with no arguments and no resolver; a name that is neither
  declared nor the identifier has no field. For a table with a declared field of another
  type \<open>addGraphFields\<close> panics with the type of the first such field.
\<close>

theorem addGraphFields_supported:
  "(f_Type f = cty_Bool \<longrightarrow> graphQLFieldType f = Inr graphql_Boolean)
   \<and> (f_Type f = cty_Number \<longrightarrow> graphQLFieldType f = Inr graphql_Int)
   \<and> (f_Type f = cty_String \<longrightarrow> graphQLFieldType f = Inr graphql_String)
   \<and> (IsObjectType (f_Type f) \<longrightarrow> graphQLFieldType f = Inr mapScalar)
   \<and> (IsMapType (f_Type f) \<longrightarrow> graphQLFieldType f = Inr mapScalar)
   \<and> (\<not> supportedType (f_Type f) \<longrightarrow> graphQLFieldType f = Inl (Unsupported (f_Type f)))
   \<and> ((\<exists>ft. graphQLFieldType f = Inr ft \<and> ft \<in> graphqlScalars) = supportedType (f_Type f))
   \<and> ((\<forall>f\<in>set (Fields t). supportedType (f_Type f)) \<longrightarrow>
        (\<exists>flds' typeFields args.
           addGraphFields rangeArgs t (flds :: 'r gqlFields) = Inr flds'
         \<and> map_of flds' (Name t)
             = Some \<lparr>gql_Type = Some \<lparr>Object_Name = Name t, Object_Fields = typeFields\<rparr>, gql_Args = args\<rparr>
         \<and> fst ` set typeFields = insert tableIDField (f_Name ` set (Fields t))
         \<and> map_of typeFields tableIDField
             = Some \<lparr>Field_Type = graphql_String, Field_Args = [], Field_Resolve = None\<rparr>
         \<and> (\<forall>n fd. map_of typeFields n = Some fd \<longrightarrow> n \<noteq> tableIDField \<longrightarrow>
               Field_Type fd \<in> graphqlScalars \<and>
               (\<exists>f\<in>set (Fields t). f_Name f = n \<and> graphQLFieldType f = Inr (Field_Type fd)))
         \<and> (\<forall>n. map_of typeFields n =
               (if n = tableIDField then Some (scalarField graphql_String)
                else (case lastFieldNamed (Fields t) n of
                        None \<Rightarrow> None
                      | Some f \<Rightarrow> map_option scalarField (scalarFor (f_Type f)))))))
   \<and> (find (\<lambda>f. \<not> supportedType (f_Type f)) (Fields t) = Some g \<longrightarrow>
        addGraphFields rangeArgs t flds = Inl (Unsupported (f_Type g)))"
proof -
  have iff: "(\<exists>ft. graphQLFieldType f = Inr ft \<and> ft \<in> graphqlScalars) = supportedType (f_Type f)"
    using graphQLFieldType_total_iff[of f] graphQLFieldType_scalar[of f] by blast
  note cases = graphQLFieldType_cases[of f]
  note ok = addGraphFields_exact_fields[of t rangeArgs flds]
  note bad = addGraphFields_panic[of t g rangeArgs flds]
  show ?thesis
    by (intro conjI impI) (use cases in blast, use cases in blast, use cases in blast,
        use cases in blast, use cases in blast, use cases in blast, rule iff,
        erule ok, erule bad)
qed

theorem addGraphFields_supported_witness:
  "graphQLFieldType \<lparr>f_Name = ''open'', f_Type = cty_Bool, f_Unique = False\<rparr> = Inr graphql_Boolean
   \<and> graphQLFieldType \<lparr>f_Name = ''capacity'', f_Type = cty_Number, f_Unique = False\<rparr> = Inr graphql_Int
   \<and> graphQLFieldType \<lparr>f_Name = ''name'', f_Type = cty_String, f_Unique = True\<rparr> = Inr graphql_String
   \<and> IsObjectType (cty_Object [(''city'', cty_String)])
   \<and> graphQLFieldType \<lparr>f_Name = ''meta'', f_Type = cty_Object [(''city'', cty_String)], f_Unique = False\<rparr>
       = Inr mapScalar
   \<and> IsMapType (cty_Map cty_String)
   \<and> supportedType (f_Type \<lparr>f_Name = ''labels'', f_Type = cty_Map cty_String, f_Unique = False\<rparr>)
   \<and> graphQLFieldType \<lparr>f_Name = ''labels'', f_Type = cty_Map cty_String, f_Unique = False\<rparr> = Inr mapScalar
   \<and> (\<exists>ft. graphQLFieldType \<lparr>f_Name = ''labels'', f_Type = cty_Map cty_String, f_Unique = False\<rparr> = Inr ft
          \<and> ft \<in> graphqlScalars)
   \<and> list_all (\<lambda>f. supportedType (f_Type f)) (Fields zooTable)
   \<and> (\<exists>flds' typeFields args.
           addGraphFields (\<lambda>m. m) zooTable ([] :: unit gqlFields) = Inr flds'
         \<and> map_of flds' (Name zooTable)
             = Some \<lparr>gql_Type = Some \<lparr>Object_Name = Name zooTable, Object_Fields = typeFields\<rparr>, gql_Args = args\<rparr>
         \<and> fst ` set typeFields = insert tableIDField (f_Name ` set (Fields zooTable))
         \<and> map_of typeFields ''_id''
             = Some \<lparr>Field_Type = graphql_String, Field_Args = [], Field_Resolve = None\<rparr>
         \<and> map_of typeFields ''name''
             = Some \<lparr>Field_Type = graphql_String, Field_Args = [], Field_Resolve = None\<rparr>
         \<and> map_of typeFields ''open''
             = Some \<lparr>Field_Type = graphql_Boolean, Field_Args = [], Field_Resolve = None\<rparr>
         \<and> map_of typeFields ''capacity''
             = Some \<lparr>Field_Type = graphql_Int, Field_Args = [], Field_Resolve = None\<rparr>
         \<and> map_of typeFields ''meta''
             = Some \<lparr>Field_Type = mapScalar, Field_Args = [], Field_Resolve = None\<rparr>
         \<and> map_of typeFields ''labels''
             = Some \<lparr>Field_Type = mapScalar, Field_Args = [], Field_Resolve = None\<rparr>
         \<and> map_of typeFields ''other'' = None)
   \<and> \<not> supportedType (cty_List cty_String)
   \<and> graphQLFieldType \<lparr>f_Name = ''tags'', f_Type = cty_List cty_String, f_Unique = False\<rparr>
       = Inl (Unsupported (cty_List cty_String))
   \<and> find (\<lambda>f. \<not> supportedType (f_Type f)) (Fields listTable)
       = Some \<lparr>f_Name = ''tags'', f_Type = cty_List cty_String, f_Unique = False\<rparr>
   \<and> addGraphFields (\<lambda>m. m) listTable ([] :: unit gqlFields) = Inl (Unsupported (cty_List cty_String))"
proof -
  let ?B = "\<lparr>f_Name = ''open'', f_Type = cty_Bool, f_Unique = False\<rparr>"
  let ?N = "\<lparr>f_Name = ''capacity'', f_Type = cty_Number, f_Unique = False\<rparr>"
  let ?S = "\<lparr>f_Name = ''name'', f_Type = cty_String, f_Unique = True\<rparr>"
  let ?O = "\<lparr>f_Name = ''meta'', f_Type = cty_Object [(''city'', cty_String)], f_Unique = False\<rparr>"
  let ?M = "\<lparr>f_Name = ''labels'', f_Type = cty_Map cty_String, f_Unique = False\<rparr>"
  let ?L = "\<lparr>f_Name = ''tags'', f_Type = cty_List cty_String, f_Unique = False\<rparr>"
  note instB = addGraphFields_supported[where f = ?B and t = zooTable and rangeArgs = "\<lambda>m. m"
                  and flds = "[] :: unit gqlFields" and g = ?L]
  note instN = addGraphFields_supported[where f = ?N and t = zooTable and rangeArgs = "\<lambda>m. m"
                  and flds = "[] :: unit gqlFields" and g = ?L]
  note instS = addGraphFields_supported[where f = ?S and t = zooTable and rangeArgs = "\<lambda>m. m"
                  and flds = "[] :: unit gqlFields" and g = ?L]
  note instO = addGraphFields_supported[where f = ?O and t = zooTable and rangeArgs = "\<lambda>m. m"
                  and flds = "[] :: unit gqlFields" and g = ?L]
  note instM = addGraphFields_supported[where f = ?M and t = zooTable and rangeArgs = "\<lambda>m. m"
                  and flds = "[] :: unit gqlFields" and g = ?L]
  note instL = addGraphFields_supported[where f = ?L and t = listTable and rangeArgs = "\<lambda>m. m"
                  and flds = "[] :: unit gqlFields" and g = ?L]
  have b: "graphQLFieldType ?B = Inr graphql_Boolean"
    using instB[THEN conjunct1] by simp
  have n: "graphQLFieldType ?N = Inr graphql_Int"
    using instN[THEN conjunct2, THEN conjunct1] by simp
  have s: "graphQLFieldType ?S = Inr graphql_String"
    using instS[THEN conjunct2, THEN conjunct2, THEN conjunct1] by simp
  have io: "IsObjectType (cty_Object [(''city'', cty_String)])" by simp
  have im: "IsMapType (cty_Map cty_String)" by simp
  have o: "graphQLFieldType ?O = Inr mapScalar"
    using instO[THEN conjunct2, THEN conjunct2, THEN conjunct2, THEN conjunct1] io by simp
  have m: "graphQLFieldType ?M = Inr mapScalar"
    using instM[THEN conjunct2, THEN conjunct2, THEN conjunct2, THEN conjunct2,
            THEN conjunct1] im by simp
  have h1: "supportedType (f_Type ?M)" by (simp add: supportedType_def)
  have c1: "\<exists>ft. graphQLFieldType ?M = Inr ft \<and> ft \<in> graphqlScalars"
    using instM[THEN conjunct2, THEN conjunct2, THEN conjunct2, THEN conjunct2,
            THEN conjunct2, THEN conjunct2, THEN conjunct1] h1 by simp
  have h2: "\<forall>f\<in>set (Fields zooTable). supportedType (f_Type f)"
    by (simp add: zooTable_def supportedType_def)
  from instM[THEN conjunct2, THEN conjunct2, THEN conjunct2, THEN conjunct2,
         THEN conjunct2, THEN conjunct2, THEN conjunct2, THEN conjunct1,
         THEN mp, OF h2]
  obtain flds' typeFields args where
    r: "addGraphFields (\<lambda>m. m) zooTable ([] :: unit gqlFields) = Inr flds'"
       "map_of flds' (Name zooTable)
             = Some \<lparr>gql_Type = Some \<lparr>Object_Name = Name zooTable, Object_Fields = typeFields\<rparr>, gql_Args = args\<rparr>"
       "fst ` set typeFields = insert tableIDField (f_Name ` set (Fields zooTable))"
    and ex: "\<forall>n. map_of typeFields n =
               (if n = tableIDField then Some (scalarField graphql_String)
                else (case lastFieldNamed (Fields zooTable) n of
                        None \<Rightarrow> None
                      | Some f \<Rightarrow> map_option scalarField (scalarFor (f_Type f))))"
    by blast
  have f0: "map_of typeFields ''_id''
             = Some \<lparr>Field_Type = graphql_String, Field_Args = [], Field_Resolve = None\<rparr>"
    using ex by (simp add: tableIDField_def scalarField_def)
  have f1: "map_of typeFields ''name''
             = Some \<lparr>Field_Type = graphql_String, Field_Args = [], Field_Resolve = None\<rparr>"
    using ex by (simp add: tableIDField_def scalarField_def zooTable_def)
  have f2: "map_of typeFields ''open''
             = Some \<lparr>Field_Type = graphql_Boolean, Field_Args = [], Field_Resolve = None\<rparr>"
    using ex by (simp add: tableIDField_def scalarField_def zooTable_def)
  have f3: "map_of typeFields ''capacity''
             = Some \<lparr>Field_Type = graphql_Int, Field_Args = [], Field_Resolve = None\<rparr>"
    using ex by (simp add: tableIDField_def scalarField_def zooTable_def)
  have f4: "map_of typeFields ''meta''
             = Some \<lparr>Field_Type = mapScalar, Field_Args = [], Field_Resolve = None\<rparr>"
    using ex by (simp add: tableIDField_def scalarField_def zooTable_def)
  have f5: "map_of typeFields ''labels''
             = Some \<lparr>Field_Type = mapScalar, Field_Args = [], Field_Resolve = None\<rparr>"
    using ex by (simp add: tableIDField_def scalarField_def zooTable_def)
  have f6: "map_of typeFields ''other'' = None"
    using ex by (simp add: tableIDField_def scalarField_def zooTable_def)
  have zoo: "\<exists>flds' typeFields args.
           addGraphFields (\<lambda>m. m) zooTable ([] :: unit gqlFields) = Inr flds'
         \<and> map_of flds' (Name zooTable)
             = Some \<lparr>gql_Type = Some \<lparr>Object_Name = Name zooTable, Object_Fields = typeFields\<rparr>, gql_Args = args\<rparr>
         \<and> fst ` set typeFields = insert tableIDField (f_Name ` set (Fields zooTable))
         \<and> map_of typeFields ''_id''
             = Some \<lparr>Field_Type = graphql_String, Field_Args = [], Field_Resolve = None\<rparr>
         \<and> map_of typeFields ''name''
             = Some \<lparr>Field_Type = graphql_String, Field_Args = [], Field_Resolve = None\<rparr>
         \<and> map_of typeFields ''open''
             = Some \<lparr>Field_Type = graphql_Boolean, Field_Args = [], Field_Resolve = None\<rparr>
         \<and> map_of typeFields ''capacity''
             = Some \<lparr>Field_Type = graphql_Int, Field_Args = [], Field_Resolve = None\<rparr>
         \<and> map_of typeFields ''meta''
             = Some \<lparr>Field_Type = mapScalar, Field_Args = [], Field_Resolve = None\<rparr>
         \<and> map_of typeFields ''labels''
             = Some \<lparr>Field_Type = mapScalar, Field_Args = [], Field_Resolve = None\<rparr>
         \<and> map_of typeFields ''other'' = None"
    using r f0 f1 f2 f3 f4 f5 f6 by blast
  have h3: "\<not> supportedType (cty_List cty_String)" by (simp add: supportedType_def)
  have l: "graphQLFieldType ?L = Inl (Unsupported (cty_List cty_String))"
    using instL[THEN conjunct2, THEN conjunct2, THEN conjunct2, THEN conjunct2,
            THEN conjunct2, THEN conjunct1] h3 by simp
  have h4: "find (\<lambda>f. \<not> supportedType (f_Type f)) (Fields listTable) = Some ?L"
    by (simp add: listTable_def supportedType_def)
  have p: "addGraphFields (\<lambda>m. m) listTable ([] :: unit gqlFields) = Inl (Unsupported (cty_List cty_String))"
    using instL[THEN conjunct2, THEN conjunct2, THEN conjunct2, THEN conjunct2,
            THEN conjunct2, THEN conjunct2, THEN conjunct2, THEN conjunct2] h4 by simp
  have la: "list_all (\<lambda>f. supportedType (f_Type f)) (Fields zooTable)"
    using h2 by (simp add: list_all_iff)
  show ?thesis
    by (intro conjI) (rule b, rule n, rule s, rule io, rule o, rule im, rule h1, rule m, rule c1,
        rule la, rule zoo, rule h3, rule l, rule h4, rule p)
qed

subsection \<open>Fields for the edges of a node\<close>


lemma lookupField_update_other:
  "k \<noteq> name \<Longrightarrow> lookupField (AList.update name v flds) k = lookupField flds k"
  by (simp add: lookupField_def update_conv')









subsection \<open>Members of the filter input object\<close>

lemma assignAll_append: "assignAll (xs @ ys) flds = assignAll ys (assignAll xs flds)"
  by (simp add: assignAll_def)

lemma scalarFilterLoop_assignAll:
  "scalarFilterLoop n a fs flds = assignAll (map (\<lambda>f. (n @ f, a)) fs) flds"
  by (induction fs arbitrary: flds) (simp_all add: scalarFilterLoop_def assignAll_def)

lemma listFilterLoop_assignAll:
  "listFilterLoop n a fs flds = assignAll (map (\<lambda>f. (n @ f, NewList a)) fs) flds"
  by (induction fs arbitrary: flds) (simp_all add: listFilterLoop_def assignAll_def)

lemma filterLoop_assignAll: "filterLoop entries flds = assignAll (filterMembers entries) flds"
proof (induction entries arbitrary: flds)
  case Nil
  then show ?case by (simp add: filterMembers_def assignAll_def)
next
  case (Cons e entries)
  obtain n a where e: "e = (n, a)" by (cases e)
  have "filterMembers (e # entries) =
      (map (\<lambda>f. (n @ f, a)) scalarFilters @ map (\<lambda>f. (n @ f, NewList a)) listFilters) @ filterMembers entries"
    by (simp add: filterMembers_def e)
  then show ?case
    using Cons.IH
    by (simp add: e assignAll_append scalarFilterLoop_assignAll listFilterLoop_assignAll)
qed

lemma map_of_assignAll:
  "map_of (assignAll kvs flds) m = (case map_of (rev kvs) m of Some v \<Rightarrow> Some v | None \<Rightarrow> map_of flds m)"
proof (induction kvs arbitrary: flds)
  case Nil
  then show ?case by (simp add: assignAll_def)
next
  case (Cons kv kvs)
  obtain k v where kv: "kv = (k, v)" by (cases kv)
  have "assignAll (kv # kvs) flds = assignAll kvs (AList.update k v flds)"
    by (simp add: assignAll_def kv)
  then show ?case
    using Cons.IH[of "AList.update k v flds"]
    by (auto simp: kv update_conv' map_add_def split: option.splits)
qed

lemma map_of_assignAll_distinct:
  assumes "distinct (map fst kvs)"
  shows "(map_of (assignAll kvs []) m = Some v) = ((m, v) \<in> set kvs)"
proof -
  have "distinct (map fst (rev kvs))" using assms by (simp add: rev_map[symmetric])
  then have "(map_of (rev kvs) m = Some v) = ((m, v) \<in> set (rev kvs))"
    by (rule map_of_eq_Some_iff)
  moreover have "map_of (assignAll kvs []) m = map_of (rev kvs) m"
    by (simp add: map_of_assignAll split: option.splits)
  ultimately show ?thesis by simp
qed

lemma set_filterMembers:
  "set (filterMembers entries) =
     (\<Union>(n, a)\<in>set entries.
        (\<lambda>f. (n @ f, a)) ` set scalarFilters \<union> (\<lambda>f. (n @ f, NewList a)) ` set listFilters)"
  by (induction entries) (auto simp: filterMembers_def)

lemma filterMembers_iff:
  "((m, ty) \<in> set (filterMembers entries)) =
     (\<exists>a aty. (a, aty) \<in> set entries \<and>
        ((\<exists>f\<in>set scalarFilters. m = a @ f \<and> ty = aty) \<or> (\<exists>f\<in>set listFilters. m = a @ f \<and> ty = NewList aty)))"
  unfolding set_filterMembers by blast

lemma allFilters_set:
  "set allFilters = {''_gt'', ''_lt'', ''_gte'', ''_lte'', ''_in'', ''_not_in''}"
  by (auto simp: allFilters_def scalarFilters_def listFilters_def filterGreaterThan_def filterLessThan_def
      filterGreaterThanOrEqualTo_def filterLessThanOrEqualTo_def filterIn_def filterNotIn_def)

lemma rev_append_eq: "n1 @ f1 = n2 @ f2 \<Longrightarrow> rev f1 @ rev n1 = rev f2 @ rev n2"
  by (metis rev_append)

lemma Cons4_rev_eq: "a # b # c # d # rev n1 = rev n2 \<Longrightarrow> n2 = n1 @ [d, c, b, a]"
proof -
  assume "a # b # c # d # rev n1 = rev n2"
  then have "rev (rev n2) = rev (a # b # c # d # rev n1)" by simp
  then show ?thesis by simp
qed

lemma filter_name_collision:
  assumes "n1 @ f1 = n2 @ f2" "f1 \<in> set allFilters" "f2 \<in> set allFilters"
  shows "(n1 = n2 \<and> f1 = f2) \<or> n2 = n1 @ ''_not'' \<or> n1 = n2 @ ''_not''"
proof -
  have r: "rev f1 @ rev n1 = rev f2 @ rev n2" using assms(1) by (rule rev_append_eq)
  have c1: "f1 = ''_gt'' \<or> f1 = ''_lt'' \<or> f1 = ''_gte'' \<or> f1 = ''_lte'' \<or> f1 = ''_in'' \<or> f1 = ''_not_in''"
    using assms(2) by (simp add: allFilters_set)
  have c2: "f2 = ''_gt'' \<or> f2 = ''_lt'' \<or> f2 = ''_gte'' \<or> f2 = ''_lte'' \<or> f2 = ''_in'' \<or> f2 = ''_not_in''"
    using assms(3) by (simp add: allFilters_set)
  show ?thesis
    using c1 c2 r by (elim disjE) (auto dest: Cons4_rev_eq Cons4_rev_eq[OF sym])
qed


lemma distinct_allFilters: "distinct allFilters"
  by (simp add: allFilters_def scalarFilters_def listFilters_def filterGreaterThan_def filterLessThan_def
      filterGreaterThanOrEqualTo_def filterLessThanOrEqualTo_def filterIn_def filterNotIn_def)

lemma map_fst_filterMembers_Cons:
  "map fst (filterMembers ((n, a) # entries)) = map ((@) n) allFilters @ map fst (filterMembers entries)"
  by (simp add: filterMembers_def allFilters_def comp_def)

lemma set_map_fst_filterMembers:
  "set (map fst (filterMembers entries)) = (\<Union>n\<in>fst ` set entries. (@) n ` set allFilters)"
proof (induction entries)
  case Nil
  then show ?case by (simp add: filterMembers_def)
next
  case (Cons e entries)
  obtain n a where e: "e = (n, a)" by (cases e)
  show ?case using Cons.IH unfolding e map_fst_filterMembers_Cons by auto
qed

lemma distinct_filterMembers:
  assumes "distinct (map fst entries)" and "noNotSuffix (fst ` set entries)"
  shows "distinct (map fst (filterMembers entries))"
  using assms
proof (induction entries)
  case Nil
  then show ?case by (simp add: filterMembers_def)
next
  case (Cons e entries)
  obtain n a where e: "e = (n, a)" by (cases e)
  have d: "distinct (map fst entries)" and nn: "n \<notin> fst ` set entries"
    using Cons.prems(1) by (auto simp: e)
  have "noNotSuffix (fst ` set entries)"
    using Cons.prems(2) by (auto simp: noNotSuffix_def)
  then have ih: "distinct (map fst (filterMembers entries))"
    using Cons.IH d by blast
  have d1: "distinct (map ((@) n) allFilters)"
    by (simp add: distinct_map distinct_allFilters inj_on_def)
  have disj: "set (map ((@) n) allFilters) \<inter> set (map fst (filterMembers entries)) = {}"
  proof (rule ccontr)
    assume "set (map ((@) n) allFilters) \<inter> set (map fst (filterMembers entries)) \<noteq> {}"
    then obtain f1 n2 f2 where
      c: "f1 \<in> set allFilters" "n2 \<in> fst ` set entries" "f2 \<in> set allFilters" "n @ f1 = n2 @ f2"
      unfolding set_map_fst_filterMembers by auto
    from filter_name_collision[OF c(4) c(1) c(3)]
    have "n = n2 \<or> n2 = n @ ''_not'' \<or> n = n2 @ ''_not''" by blast
    moreover have "n \<noteq> n2" using nn c(2) by blast
    moreover have all: "\<forall>a\<in>insert n (fst ` set entries). a @ ''_not'' \<notin> insert n (fst ` set entries)"
      using Cons.prems(2) by (simp add: noNotSuffix_def e)
    have "n2 \<noteq> n @ ''_not''"
      using all c(2) by blast
    moreover have "n \<noteq> n2 @ ''_not''"
      using all c(2) by blast
    ultimately show False by blast
  qed
  show ?case
    unfolding e map_fst_filterMembers_Cons using d1 ih disj by simp
qed

lemma filterLoop_members:
  assumes "distinct (map fst entries)" and "noNotSuffix (fst ` set entries)"
  shows "(map_of (filterLoop entries []) m = Some ty) =
     (\<exists>a aty. (a, aty) \<in> set entries \<and>
        ((\<exists>f\<in>set scalarFilters. m = a @ f \<and> ty = aty) \<or>
         (\<exists>f\<in>set listFilters. m = a @ f \<and> ty = NewList aty)))"
  using map_of_assignAll_distinct[OF distinct_filterMembers[OF assms]]
  by (simp add: filterLoop_assignAll filterMembers_iff)

lemma tableFieldLoop_distinct:
  "tableFieldLoop fs tf args = Inr (tf', args') \<Longrightarrow> distinct (map fst args) \<Longrightarrow> distinct (map fst args')"
proof (induction fs arbitrary: tf args)
  case Nil
  then show ?case by simp
next
  case (Cons f fs)
  then show ?case
    by (auto simp: distinct_update split: sum.splits)
qed


text \<open>
  C7, as it is written: for each argument \<open>a\<close> the filter has the members \<open>a_gt\<close>,
  \<open>a_lt\<close>, \<open>a_gte\<close>, \<open>a_lte\<close> of the type of \<open>a\<close> and \<open>a_in\<close>, \<open>a_not_in\<close> of
  the list of that type. A table with a String field \<open>x\<close> and a Number field \<open>x_not\<close>
  refutes it: the member \<open>x_not_in\<close> is both the \<open>_not_in\<close> of \<open>x\<close> and the \<open>_in\<close>
  of \<open>x_not\<close>, and the map holds one type under that name. When the range yields \<open>x\<close>
  before \<open>x_not\<close> the type is the list of Int, which is not the one \<open>x\<close> asks for; in
  the other order it is the list of String, which is not the one \<open>x_not\<close> asks for.
\<close>

theorem graphQLFilterType_collision_counterexample:
  "filterMemberOf (\<lambda>m. m) collidingTable (''x'' @ filterNotIn) = Some (NewList graphql_Int)
   \<and> filterMemberOf rev collidingTable (''x_not'' @ filterIn) = Some (NewList graphql_String)
   \<and> map_of collidingArgs ''x'' = Some graphql_String
   \<and> map_of collidingArgs ''x_not'' = Some graphql_Int"
  by (simp add: filterMemberOf_def collidingTable_def collidingArgs_def addGraphFields_def
      graphQLFieldType_def graphQLFilterType_def graphQLOrderType_def Let_def
      scalarFilterLoop_def listFilterLoop_def scalarFilters_def listFilters_def
      filterGreaterThan_def filterLessThan_def filterGreaterThanOrEqualTo_def
      filterLessThanOrEqualTo_def filterIn_def filterNotIn_def tableIDField_def filterID_def
      orderByID_def filterOnID_def firstID_def lastID_def)

text \<open>
  C7, amended: when no argument of the table is named like another argument followed by
  \<open>_not\<close>, the filter input object of the table, in whatever order the range yields
  the arguments, is named after the table and has exactly these members: for each
  argument \<open>a\<close>, which are the declared fields and the identifier, \<open>a_gt\<close>, \<open>a_lt\<close>,
  \<open>a_gte\<close>, \<open>a_lte\<close> of the type of \<open>a\<close>, and \<open>a_in\<close>, \<open>a_not_in\<close> of the list of
  that type.
\<close>

theorem graphQLFilterType_members:
  assumes run: "addGraphFields rangeArgs t (flds :: 'r gqlFields) = Inr flds'"
    and rng: "validRange rangeArgs"
    and nn: "noNotSuffix (tableArgNames t)"
  shows "\<exists>(typeFields0 :: (string \<times> 'r graphqlField) list) args0 fa members.
           tableFieldLoop (Fields t) [] [] = Inr (typeFields0, args0)
         \<and> fst ` set (AList.update tableIDField graphql_String args0) = tableArgNames t
         \<and> map_of flds' (Name t) = Some fa
         \<and> map_of (gql_Args fa) filterID = Some (NewInputObject (Name t @ ''_filter'') members)
         \<and> (\<forall>m ty. (map_of members m = Some ty) =
               (\<exists>a aty. map_of (AList.update tableIDField graphql_String args0) a = Some aty \<and>
                  ((\<exists>f\<in>set scalarFilters. m = a @ f \<and> ty = aty) \<or>
                   (\<exists>f\<in>set listFilters. m = a @ f \<and> ty = NewList aty))))"
proof -
  from run obtain tf0 :: "(string \<times> 'r graphqlField) list" and args0 where
    loop: "tableFieldLoop (Fields t) [] [] = Inr (tf0, args0)"
    by (auto simp: addGraphFields_def split: sum.splits)
  let ?args1 = "AList.update tableIDField graphql_String args0"
  have d0: "distinct (map fst args0)" using tableFieldLoop_distinct[OF loop] by simp
  then have d1: "distinct (map fst ?args1)" by (simp add: distinct_update)
  have keys: "fst ` set ?args1 = tableArgNames t"
    using tableFieldLoop_keys[OF loop] by (simp add: dom_update tableArgNames_def)
  have r1: "set (rangeArgs ?args1) = set ?args1" and r2: "distinct (map fst (rangeArgs ?args1))"
    using rng d1 by (auto simp: validRange_def)
  have nn': "noNotSuffix (fst ` set (rangeArgs ?args1))"
    using nn keys r1 by simp
  have mem: "(map_of (filterLoop (rangeArgs ?args1) []) m = Some ty) =
               (\<exists>a aty. map_of ?args1 a = Some aty \<and>
                  ((\<exists>f\<in>set scalarFilters. m = a @ f \<and> ty = aty) \<or>
                   (\<exists>f\<in>set listFilters. m = a @ f \<and> ty = NewList aty)))" for m ty
    using filterLoop_members[OF r2 nn', of m ty] r1 d1 by simp
  have ne: "filterID \<noteq> orderByID" "filterID \<noteq> filterOnID" "filterID \<noteq> firstID" "filterID \<noteq> lastID"
    by (simp_all add: filterID_def orderByID_def filterOnID_def firstID_def lastID_def)
  let ?members = "filterLoop (rangeArgs ?args1) []"
  obtain fa where fa: "map_of flds' (Name t) = Some fa"
    and filt: "map_of (gql_Args fa) filterID = Some (NewInputObject (Name t @ ''_filter'') ?members)"
    using run loop ne
    by (auto simp: addGraphFields_def Let_def update_conv' graphQLFilterType_def)
  show ?thesis
    using loop keys fa filt mem by blast
qed

lemma validRange_rev: "validRange rev"
  unfolding validRange_def by (metis distinct_rev rev_map set_rev)

lemma zooTable_args:
  "tableFieldLoop (Fields zooTable) [] ([] :: FieldConfigArgument)
     = Inr (typeFields0 :: (string \<times> unit graphqlField) list, args0) \<Longrightarrow>
   args0 = [(''name'', graphql_String), (''open'', graphql_Boolean), (''capacity'', graphql_Int),
            (''meta'', mapScalar), (''labels'', mapScalar)]"
  by (simp add: zooTable_def graphQLFieldType_def)

theorem graphQLFilterType_members_witness:
  "\<exists>flds'. addGraphFields rev zooTable ([] :: unit gqlFields) = Inr flds'
      \<and> validRange rev
      \<and> noNotSuffix (tableArgNames zooTable)
      \<and> (\<exists>fa members.
             map_of flds' (Name zooTable) = Some fa
           \<and> map_of (gql_Args fa) filterID = Some (NewInputObject (Name zooTable @ ''_filter'') members)
           \<and> map_of members ''capacity_gt'' = Some graphql_Int
           \<and> map_of members ''capacity_in'' = Some (NewList graphql_Int))"
proof -
  have sup: "\<forall>f\<in>set (Fields zooTable). supportedType (f_Type f)"
    by (simp add: zooTable_def supportedType_def)
  obtain flds' where h1: "addGraphFields rev zooTable ([] :: unit gqlFields) = Inr flds'"
    using addGraphFields_supported_fields[OF sup, of rev "[]"] by blast
  have h2: "validRange rev" by (rule validRange_rev)
  have h3: "noNotSuffix (tableArgNames zooTable)"
    by (simp add: noNotSuffix_def tableArgNames_def zooTable_def tableIDField_def)
  from graphQLFilterType_members[OF h1 h2 h3]
  obtain typeFields0 :: "(string \<times> unit graphqlField) list" and args0 fa members where
    r1: "tableFieldLoop (Fields zooTable) [] [] = Inr (typeFields0, args0)" and
    r2: "map_of flds' (Name zooTable) = Some fa" and
    r3: "map_of (gql_Args fa) filterID = Some (NewInputObject (Name zooTable @ ''_filter'') members)" and
    r4: "\<forall>m ty. (map_of members m = Some ty) =
               (\<exists>a aty. map_of (AList.update tableIDField graphql_String args0) a = Some aty \<and>
                  ((\<exists>f\<in>set scalarFilters. m = a @ f \<and> ty = aty) \<or>
                   (\<exists>f\<in>set listFilters. m = a @ f \<and> ty = NewList aty)))"
    by (elim exE conjE) (rule that)
  have a0: "map_of (AList.update tableIDField graphql_String args0) ''capacity'' = Some graphql_Int"
    unfolding zooTable_args[OF r1] by (simp add: tableIDField_def)
  have s1: "''_gt'' \<in> set scalarFilters" by (simp add: scalarFilters_def filterGreaterThan_def)
  have s2: "''_in'' \<in> set listFilters" by (simp add: listFilters_def filterIn_def)
  have e1: "''capacity_gt'' = ''capacity'' @ ''_gt''" by simp
  have e2: "''capacity_in'' = ''capacity'' @ ''_in''" by simp
  have m1: "map_of members ''capacity_gt'' = Some graphql_Int"
    using r4[rule_format, of "''capacity_gt''" graphql_Int] a0 s1 e1 by blast
  have m2: "map_of members ''capacity_in'' = Some (NewList graphql_Int)"
    using r4[rule_format, of "''capacity_in''" "NewList graphql_Int"] a0 s2 e2 by blast
  show ?thesis using h1 h2 h3 r2 r3 m1 m2 by blast
qed

subsection \<open>Building the schema graph\<close>

lemma tableNames_Cons:
  "tableNames (core_Table n fs cs js sg un # ts) = n # tableNames cs @ tableNames ts"
  by (simp add: tableNames_def)

lemma tableNames_Nil: "tableNames [] = []"
  by (simp add: tableNames_def)

lemma createFrom_keys:
  "fst ` set (createFrom nodes ts) = fst ` set nodes \<union> set (tableNames ts)"
  by (induction nodes ts rule: createFrom.induct)
     (auto simp: tableNames_Cons tableNames_Nil dom_update)

lemma edgesOf_update:
  "edgesOf (AList.update k v nodes) k' = (if k' = k then Edges v else edgesOf nodes k')"
  by (simp add: edgesOf_def update_conv')

lemma createFrom_no_edges:
  "(\<forall>k. edgesOf nodes k = []) \<Longrightarrow> edgesOf (createFrom nodes ts) k = []"
  by (induction nodes ts arbitrary: k rule: createFrom.induct)
     (auto simp: edgesOf_update)

lemma in_keys_iff: "(k \<in> fst ` set nodes) = (\<exists>n. map_of nodes k = Some n)"
  by (metis domIff dom_map_of_conv_image_fst not_Some_eq)

lemma addEdgeFromJoin_result:
  assumes "addEdgeFromJoin nodes n c u = Inr nodes'"
  shows "fst ` set nodes' = fst ` set nodes"
    and "edgesOf nodes' k = edgesOf nodes k @ joinEdges n c u k"
    and "map_option Table (map_of nodes' k) = map_option Table (map_of nodes k)"
    and "n \<in> fst ` set nodes" and "c \<in> fst ` set nodes"
proof -
  from assms obtain pn where pn: "map_of nodes n = Some pn"
    by (auto simp: addEdgeFromJoin_def Let_def split: option.splits)
  let ?e1 = "\<lparr>Node = c, Rel = (if u then OneToOne else OneToMany)\<rparr>"
  let ?e2 = "\<lparr>Node = n, Rel = BelongsTo\<rparr>"
  let ?n1 = "AList.update n (pn\<lparr>Edges := Edges pn @ [?e1]\<rparr>) nodes"
  from assms pn obtain cn where cn: "map_of ?n1 c = Some cn"
    by (auto simp: addEdgeFromJoin_def Let_def split: option.splits)
  have r: "nodes' = AList.update c (cn\<lparr>Edges := Edges cn @ [?e2]\<rparr>) ?n1"
    using assms pn cn by (simp add: addEdgeFromJoin_def Let_def)
  show n_in: "n \<in> fst ` set nodes" using pn by (auto simp: in_keys_iff)
  show c_in: "c \<in> fst ` set nodes" using cn n_in
    by (auto simp: in_keys_iff update_conv' split: if_splits)
  show "fst ` set nodes' = fst ` set nodes"
    using n_in c_in by (auto simp: r dom_update)
  show "edgesOf nodes' k = edgesOf nodes k @ joinEdges n c u k"
    using pn cn by (auto simp: r edgesOf_def update_conv' joinEdges_def split: if_splits)
  show "map_option Table (map_of nodes' k) = map_option Table (map_of nodes k)"
    using pn cn by (auto simp: r update_conv' split: if_splits)
qed

lemma addEdgeFromJoin_total:
  assumes "n \<in> fst ` set nodes" "c \<in> fst ` set nodes"
  shows "\<exists>nodes'. addEdgeFromJoin nodes n c u = Inr nodes'"
proof -
  from assms obtain pn cn where "map_of nodes n = Some pn" "map_of nodes c = Some cn"
    by (auto simp: in_keys_iff)
  then show ?thesis
    by (auto simp: addEdgeFromJoin_def Let_def update_conv')
qed






lemma pairEdges_append: "pairEdges (xs @ ys) k = pairEdges xs k @ pairEdges ys k"
  by (simp add: pairEdges_def)

lemma pairEdges_Nil: "pairEdges [] k = []"
  by (simp add: pairEdges_def)

lemma pairEdges_Cons: "pairEdges ((p, c, s) # xs) k = joinEdges p c s k @ pairEdges xs k"
  by (simp add: pairEdges_def)

lemma connectJoins_run:
  assumes "tname \<in> fst ` set nodes"
  shows "\<exists>nodes' e. connectJoins nodes tname js = Inr (nodes', e)
           \<and> fst ` set nodes' = fst ` set nodes
           \<and> ((e = None) = (\<forall>j\<in>set js. j_Table j \<in> fst ` set nodes))
           \<and> (e = None \<longrightarrow>
                (\<forall>k. edgesOf nodes' k
                       = edgesOf nodes k @ pairEdges (map (\<lambda>j. (j_Table j, tname, j_Single j)) js) k))"
  using assms
proof (induction js arbitrary: nodes)
  case Nil
  then show ?case by (simp add: pairEdges_Nil)
next
  case (Cons j js)
  show ?case
  proof (cases "j_Table j \<in> fst ` set nodes")
    case False
    then have "map_of nodes (j_Table j) = None" by (simp add: in_keys_iff)
    then show ?thesis using False by simp
  next
    case True
    then obtain pn where pn: "map_of nodes (j_Table j) = Some pn" by (auto simp: in_keys_iff)
    from addEdgeFromJoin_total[OF True Cons.prems] obtain nodes1 where
      a: "addEdgeFromJoin nodes (j_Table j) tname (j_Single j) = Inr nodes1" by blast
    have k1: "fst ` set nodes1 = fst ` set nodes" using addEdgeFromJoin_result(1)[OF a] .
    have e1: "edgesOf nodes1 k = edgesOf nodes k @ joinEdges (j_Table j) tname (j_Single j) k" for k
      using addEdgeFromJoin_result(2)[OF a] .
    have "tname \<in> fst ` set nodes1" using Cons.prems k1 by simp
    from Cons.IH[OF this] obtain nodes' e where
      r: "connectJoins nodes1 tname js = Inr (nodes', e)"
         "fst ` set nodes' = fst ` set nodes1"
         "(e = None) = (\<forall>j\<in>set js. j_Table j \<in> fst ` set nodes1)"
         "e = None \<longrightarrow>
                (\<forall>k. edgesOf nodes' k
                       = edgesOf nodes1 k @ pairEdges (map (\<lambda>j. (j_Table j, tname, j_Single j)) js) k)"
      by blast
    have "connectJoins nodes tname (j # js) = Inr (nodes', e)"
      using pn a r(1) by simp
    then show ?thesis
      using r(2-4) k1 e1 True by (auto simp: pairEdges_Cons)
  qed
qed

lemma nodePtr_in: "n \<in> fst ` set nodes \<Longrightarrow> nodePtr nodes n = Some n"
  by (auto simp: nodePtr_def in_keys_iff)

lemma connectFrom_run:
  assumes "set (tableNames ts) \<subseteq> fst ` set nodes"
    and "\<forall>p. parent = Some p \<longrightarrow> p \<in> fst ` set nodes"
  shows "\<exists>nodes' e. connectFrom nodes ts parent = Inr (nodes', e)
           \<and> fst ` set nodes' = fst ` set nodes
           \<and> ((e = None) = (\<forall>t\<in>set ts. \<forall>j\<in>set (Joins t). j_Table j \<in> fst ` set nodes))
           \<and> ((\<forall>t\<in>set (allTables ts). \<forall>j\<in>set (Joins t). j_Table j \<in> fst ` set nodes) \<longrightarrow>
                (\<forall>k. edgesOf nodes' k = edgesOf nodes k @ pairEdges (joinPairs parent ts) k))"
  using assms
proof (induction parent ts arbitrary: nodes rule: joinPairs.induct)
  case (1 parent)
  then show ?case by (simp add: pairEdges_Nil)
next
  case (2 parent n fs cs js sg un ts)
  let ?K = "fst ` set nodes"
  have n_in: "n \<in> ?K" and cs_in: "set (tableNames cs) \<subseteq> ?K" and ts_in: "set (tableNames ts) \<subseteq> ?K"
    using "2.prems"(1) by (auto simp: tableNames_Cons)
  from connectJoins_run[OF n_in, of js] obtain nodes1 e1 where
    j: "connectJoins nodes n js = Inr (nodes1, e1)"
       "fst ` set nodes1 = ?K"
       "(e1 = None) = (\<forall>j\<in>set js. j_Table j \<in> ?K)"
       "e1 = None \<longrightarrow>
          (\<forall>k. edgesOf nodes1 k = edgesOf nodes k @ pairEdges (map (\<lambda>j. (j_Table j, n, j_Single j)) js) k)"
    by blast
  show ?case
  proof (cases e1)
    case (Some err)
    then have "connectFrom nodes (core_Table n fs cs js sg un # ts) parent = Inr (nodes1, Some err)"
      using j(1) by simp
    moreover have "\<not> (\<forall>j\<in>set js. j_Table j \<in> ?K)" using j(3) Some by simp
    ultimately show ?thesis using j(2) by auto
  next
    case None
    have "\<exists>nodes2. (case parent of None \<Rightarrow> Inr nodes1 | Some p \<Rightarrow> addEdgeFromJoin nodes1 p n sg) = Inr nodes2
            \<and> fst ` set nodes2 = ?K
            \<and> (\<forall>k. edgesOf nodes2 k
                    = edgesOf nodes1 k @ pairEdges (case parent of None \<Rightarrow> [] | Some p \<Rightarrow> [(p, n, sg)]) k)"
    proof (cases parent)
      case None
      then show ?thesis using j(2) by (simp add: pairEdges_Nil)
    next
      case (Some p)
      then have "p \<in> fst ` set nodes1" "n \<in> fst ` set nodes1"
        using "2.prems"(2) n_in j(2) by auto
      from addEdgeFromJoin_total[OF this] obtain nodes2 where
        a: "addEdgeFromJoin nodes1 p n sg = Inr nodes2" by blast
      show ?thesis
        using a addEdgeFromJoin_result(1,2)[OF a] Some j(2)
        by (simp add: pairEdges_Cons pairEdges_Nil)
    qed
    then obtain nodes2 where
      a: "(case parent of None \<Rightarrow> Inr nodes1 | Some p \<Rightarrow> addEdgeFromJoin nodes1 p n sg) = Inr nodes2"
         "fst ` set nodes2 = ?K"
         "\<And>k. edgesOf nodes2 k
                    = edgesOf nodes1 k @ pairEdges (case parent of None \<Rightarrow> [] | Some p \<Rightarrow> [(p, n, sg)]) k"
      by blast
    have ptr: "nodePtr nodes2 n = Some n" using n_in a(2) by (simp add: nodePtr_in)
    have "\<exists>nodes3 e3. connectFrom nodes2 cs (Some n) = Inr (nodes3, e3)
           \<and> fst ` set nodes3 = ?K
           \<and> ((e3 = None) = (\<forall>t\<in>set cs. \<forall>j\<in>set (Joins t). j_Table j \<in> ?K))
           \<and> ((\<forall>t\<in>set (allTables cs). \<forall>j\<in>set (Joins t). j_Table j \<in> ?K) \<longrightarrow>
                (\<forall>k. edgesOf nodes3 k = edgesOf nodes2 k @ pairEdges (joinPairs (Some n) cs) k))"
      using "2.IH"(1)[of nodes2] cs_in n_in a(2) by simp
    then obtain nodes3 e3 where
      c: "connectFrom nodes2 cs (Some n) = Inr (nodes3, e3)"
         "fst ` set nodes3 = ?K"
         "(\<forall>t\<in>set (allTables cs). \<forall>j\<in>set (Joins t). j_Table j \<in> ?K) \<longrightarrow>
                (\<forall>k. edgesOf nodes3 k = edgesOf nodes2 k @ pairEdges (joinPairs (Some n) cs) k)"
      by (elim exE conjE) (rule that)
    have "\<exists>nodes' e. connectFrom nodes3 ts parent = Inr (nodes', e)
           \<and> fst ` set nodes' = ?K
           \<and> ((e = None) = (\<forall>t\<in>set ts. \<forall>j\<in>set (Joins t). j_Table j \<in> ?K))
           \<and> ((\<forall>t\<in>set (allTables ts). \<forall>j\<in>set (Joins t). j_Table j \<in> ?K) \<longrightarrow>
                (\<forall>k. edgesOf nodes' k = edgesOf nodes3 k @ pairEdges (joinPairs parent ts) k))"
      using "2.IH"(2)[of nodes3] ts_in "2.prems"(2) c(2) by simp
    then obtain nodes' e where
      r: "connectFrom nodes3 ts parent = Inr (nodes', e)"
         "fst ` set nodes' = ?K"
         "(e = None) = (\<forall>t\<in>set ts. \<forall>j\<in>set (Joins t). j_Table j \<in> ?K)"
         "(\<forall>t\<in>set (allTables ts). \<forall>j\<in>set (Joins t). j_Table j \<in> ?K) \<longrightarrow>
                (\<forall>k. edgesOf nodes' k = edgesOf nodes3 k @ pairEdges (joinPairs parent ts) k)"
      by (elim exE conjE) (rule that)
    have run: "connectFrom nodes (core_Table n fs cs js sg un # ts) parent = Inr (nodes', e)"
      using j(1) None a(1) ptr c(1) r(1) by simp
    have err: "(e = None) = (\<forall>t\<in>set (core_Table n fs cs js sg un # ts). \<forall>j\<in>set (Joins t). j_Table j \<in> ?K)"
      using r(3) j(3) None by simp
    have edges: "\<forall>k. edgesOf nodes' k
            = edgesOf nodes k @ pairEdges (joinPairs parent (core_Table n fs cs js sg un # ts)) k"
      if all: "\<forall>t\<in>set (allTables (core_Table n fs cs js sg un # ts)). \<forall>j\<in>set (Joins t). j_Table j \<in> ?K"
    proof
      fix k
      have 1: "edgesOf nodes1 k = edgesOf nodes k @ pairEdges (map (\<lambda>j. (j_Table j, n, j_Single j)) js) k"
        using j(4) None by simp
      have 3: "edgesOf nodes3 k = edgesOf nodes2 k @ pairEdges (joinPairs (Some n) cs) k"
        using c(3) all by auto
      have 4: "edgesOf nodes' k = edgesOf nodes3 k @ pairEdges (joinPairs parent ts) k"
        using r(4) all by auto
      show "edgesOf nodes' k
            = edgesOf nodes k @ pairEdges (joinPairs parent (core_Table n fs cs js sg un # ts)) k"
        by (simp add: 1 a(3) 3 4 pairEdges_append)
    qed
    show ?thesis using run r(2) err edges by blast
  qed
qed

lemma set_subset_allTables: "set ts \<subseteq> set (allTables ts)"
  by (induction ts rule: allTables.induct) auto

lemma NewSchemaGraph_run:
  "\<exists>g e. NewSchemaGraph tables = Inr (g, e)
     \<and> Nodes g = rootNodes tables
     \<and> fst ` set (NodeIndex g) = set (tableNames tables)
     \<and> ((e = None) = (\<forall>t\<in>set tables. \<forall>j\<in>set (Joins t). j_Table j \<in> set (tableNames tables)))
     \<and> (joinsDeclared tables \<longrightarrow>
          (\<forall>k. edgesOf (NodeIndex g) k = pairEdges (joinPairs None tables) k))"
proof -
  let ?nodes = "createFrom [] tables"
  have k: "fst ` set ?nodes = set (tableNames tables)"
    by (simp add: createFrom_keys)
  have e0: "edgesOf ?nodes k = []" for k
    by (rule createFrom_no_edges) (simp add: edgesOf_def)
  have "set (tableNames tables) \<subseteq> fst ` set ?nodes" using k by simp
  from connectFrom_run[OF this, of None]
  have "\<exists>nodes' e. connectFrom ?nodes tables None = Inr (nodes', e)
           \<and> fst ` set nodes' = fst ` set ?nodes
           \<and> ((e = None) = (\<forall>t\<in>set tables. \<forall>j\<in>set (Joins t). j_Table j \<in> fst ` set ?nodes))
           \<and> ((\<forall>t\<in>set (allTables tables). \<forall>j\<in>set (Joins t). j_Table j \<in> fst ` set ?nodes) \<longrightarrow>
                (\<forall>k. edgesOf nodes' k = edgesOf ?nodes k @ pairEdges (joinPairs None tables) k))"
    by simp
  then obtain nodes' e where
    r: "connectFrom ?nodes tables None = Inr (nodes', e)"
       "fst ` set nodes' = fst ` set ?nodes"
       "(e = None) = (\<forall>t\<in>set tables. \<forall>j\<in>set (Joins t). j_Table j \<in> fst ` set ?nodes)"
       "(\<forall>t\<in>set (allTables tables). \<forall>j\<in>set (Joins t). j_Table j \<in> fst ` set ?nodes) \<longrightarrow>
                (\<forall>k. edgesOf nodes' k = edgesOf ?nodes k @ pairEdges (joinPairs None tables) k)"
    by (elim exE conjE) (rule that)
  have ed: "joinsDeclared tables \<longrightarrow> (\<forall>k. edgesOf nodes' k = pairEdges (joinPairs None tables) k)"
    using r(4) e0 unfolding joinsDeclared_def k by simp
  show ?thesis
  proof (cases e)
    case None
    then have "NewSchemaGraph tables = Inr (\<lparr>Nodes = rootNodes tables, NodeIndex = nodes'\<rparr>, None)"
      using r(1) by (simp add: NewSchemaGraph_def)
    then show ?thesis using r(2,3) k ed None by simp
  next
    case (Some err)
    then have "NewSchemaGraph tables
        = Inr (\<lparr>Nodes = rootNodes tables, NodeIndex = nodes'\<rparr>, Some (''failed to create graph: '' @ err))"
      using r(1) by (simp add: NewSchemaGraph_def)
    then show ?thesis using r(2,3) k ed Some by simp
  qed
qed

lemmas ex_defs = tbl_def join_def NewSchemaGraph_def addEdgeFromJoin_def rootNodes_def nodePtr_def
  builtEdges_def buildError_def edgesOf_def tableNames_def

text \<open>
  C1, as it is written: a schema whose belongs-to edges form a cycle is rejected. Two
  tables that join each other refute it: \<open>NewSchemaGraph\<close> returns the graph and no
  error, and each of the two nodes has a BelongsTo edge to the other.
\<close>

theorem NewSchemaGraph_cycle_counterexample:
  "buildError cycleTables = Some None
   \<and> builtEdges cycleTables ''A'' = Some [\<lparr>Node = ''B'', Rel = BelongsTo\<rparr>, \<lparr>Node = ''B'', Rel = OneToMany\<rparr>]
   \<and> builtEdges cycleTables ''B'' = Some [\<lparr>Node = ''A'', Rel = OneToMany\<rparr>, \<lparr>Node = ''A'', Rel = BelongsTo\<rparr>]"
  by (simp add: cycleTables_def ex_defs)

text \<open>
  C1, amended: \<open>NewSchemaGraph\<close> makes no check for cycles. For every schema all of
  whose explicit joins name declared tables, a cycle among them or not, it returns the
  graph and no error. The construction is a function of the tables alone: there is no
  database in its state.
\<close>

theorem NewSchemaGraph_joins_declared:
  assumes "joinsDeclared tables"
  shows "\<exists>g. NewSchemaGraph tables = Inr (g, None)"
proof -
  have "\<forall>t\<in>set tables. \<forall>j\<in>set (Joins t). j_Table j \<in> set (tableNames tables)"
    using assms set_subset_allTables unfolding joinsDeclared_def by blast
  then show ?thesis using NewSchemaGraph_run[of tables] by blast
qed

theorem NewSchemaGraph_joins_declared_witness:
  "joinsDeclared cycleTables \<and> (\<exists>g. NewSchemaGraph cycleTables = Inr (g, None))"
proof -
  have h: "joinsDeclared cycleTables"
    by (simp add: joinsDeclared_def cycleTables_def tbl_def join_def tableNames_def)
  from NewSchemaGraph_joins_declared[OF h] h show ?thesis by blast
qed

text \<open>
  C9. The claim asks for an error whenever some declared table joins a table that is not
  declared. The table \<open>B\<close> nested in \<open>A\<close> joins \<open>X\<close>, which nobody declares:
  \<open>NewSchemaGraph\<close> returns no error, and the graph has no edge at all. The recursive
  call of \<open>connectFrom\<close> did return the error; its caller drops the value. The same
  join at top level gives the error.
\<close>

theorem NewSchemaGraph_nested_unknown_join:
  "buildError nestedUnknownTables = Some None
   \<and> ''X'' \<notin> set (tableNames nestedUnknownTables)
   \<and> builtEdges nestedUnknownTables ''A'' = Some []
   \<and> builtEdges nestedUnknownTables ''B'' = Some []
   \<and> buildError topUnknownTables
       = Some (Some ''failed to create graph: join refers to unknown table: B --> X'')"
  by (simp add: nestedUnknownTables_def topUnknownTables_def ex_defs)






lemma joinPairs_explicit:
  "t \<in> set (allTables ts) \<Longrightarrow> j \<in> set (Joins t) \<Longrightarrow>
   (j_Table j, Name t, j_Single j) \<in> set (joinPairs parent ts)"
  by (induction parent ts rule: joinPairs.induct) auto

lemma joinPairs_child:
  "c \<in> set ts \<Longrightarrow> parent = Some p \<Longrightarrow> (p, Name c, Single c) \<in> set (joinPairs parent ts)"
  by (induction parent ts rule: joinPairs.induct) auto

lemma joinPairs_nested:
  "t \<in> set (allTables ts) \<Longrightarrow> c \<in> set (Tables t) \<Longrightarrow>
   (Name t, Name c, Single c) \<in> set (joinPairs parent ts)"
proof (induction parent ts rule: joinPairs.induct)
  case (1 parent)
  then show ?case by simp
next
  case (2 parent n fs cs js sg un ts)
  from "2.prems"(1) consider "t = core_Table n fs cs js sg un"
    | "t \<in> set (allTables cs)" | "t \<in> set (allTables ts)"
    by auto
  then show ?case
  proof cases
    case 1
    then have "c \<in> set cs" using "2.prems"(2) by simp
    from joinPairs_child[OF this refl, of n] show ?thesis using 1 by simp
  next
    case 2
    from "2.IH"(1)[OF this "2.prems"(2)] show ?thesis by simp
  next
    case 3
    from "2.IH"(2)[OF this "2.prems"(2)] show ?thesis by simp
  qed
qed

lemma pairEdges_member:
  assumes "(p, c, s) \<in> set pairs"
  shows "\<lparr>Node = c, Rel = (if s then OneToOne else OneToMany)\<rparr> \<in> set (pairEdges pairs p)"
    and "\<lparr>Node = p, Rel = BelongsTo\<rparr> \<in> set (pairEdges pairs c)"
  using assms by (auto simp: pairEdges_def joinEdges_def intro!: bexI[of _ "(p, c, s)"])

text \<open>
  C6, as it is written: every explicit join between declared tables and every nesting
  gets its two edges. It fails where the construction stops early. At top level the
  unknown join of \<open>T1\<close> ends the construction with the error before the join of \<open>T2\<close>
  to \<open>T1\<close> is reached. In a nested list the unknown join of \<open>B\<close> ends the recursive
  call before the nesting of \<open>B\<close> and of its sibling \<open>C\<close> in \<open>A\<close> is connected, and
  no error is returned.
\<close>

theorem NewSchemaGraph_missing_edges_counterexample:
  "buildError abortedTables
     = Some (Some ''failed to create graph: join refers to unknown table: T1 --> X'')
   \<and> builtEdges abortedTables ''T1'' = Some []
   \<and> builtEdges abortedTables ''T2'' = Some []
   \<and> buildError skippedTables = Some None
   \<and> builtEdges skippedTables ''A'' = Some []
   \<and> builtEdges skippedTables ''C'' = Some []"
  by (simp add: abortedTables_def skippedTables_def ex_defs)

text \<open>
  C6, amended: when every explicit join of every declared table names a declared table,
  \<open>NewSchemaGraph\<close> returns the graph without error, and in it every explicit join of
  a table \<open>t\<close> has given the joined node an edge to \<open>t\<close>, OneToOne if the join is
  single and OneToMany if not, and \<open>t\<close> a BelongsTo edge to the joined node; every table
  \<open>c\<close> nested in \<open>t\<close> has given \<open>t\<close> an edge to \<open>c\<close>, OneToOne if \<open>c\<close> is single
  and OneToMany if not, and \<open>c\<close> a BelongsTo edge to \<open>t\<close>. The edges of every node are
  those of the joins of the schema in the order of the declarations, and no others.
\<close>

theorem NewSchemaGraph_join_edges:
  assumes "joinsDeclared tables"
  shows "\<exists>g. NewSchemaGraph tables = Inr (g, None)
           \<and> (\<forall>t\<in>set (allTables tables).
                 (\<forall>j\<in>set (Joins t).
                     \<lparr>Node = Name t, Rel = (if j_Single j then OneToOne else OneToMany)\<rparr>
                       \<in> set (edgesOf (NodeIndex g) (j_Table j))
                   \<and> \<lparr>Node = j_Table j, Rel = BelongsTo\<rparr> \<in> set (edgesOf (NodeIndex g) (Name t)))
               \<and> (\<forall>c\<in>set (Tables t).
                     \<lparr>Node = Name c, Rel = (if Single c then OneToOne else OneToMany)\<rparr>
                       \<in> set (edgesOf (NodeIndex g) (Name t))
                   \<and> \<lparr>Node = Name t, Rel = BelongsTo\<rparr> \<in> set (edgesOf (NodeIndex g) (Name c))))
           \<and> (\<forall>k. edgesOf (NodeIndex g) k = pairEdges (joinPairs None tables) k)"
proof -
  have top: "\<forall>t\<in>set tables. \<forall>j\<in>set (Joins t). j_Table j \<in> set (tableNames tables)"
    using assms set_subset_allTables unfolding joinsDeclared_def by blast
  from NewSchemaGraph_run[of tables] top assms obtain g where
    g: "NewSchemaGraph tables = Inr (g, None)"
    and ed: "\<And>k. edgesOf (NodeIndex g) k = pairEdges (joinPairs None tables) k"
    by blast
  have explicit: "\<lparr>Node = Name t, Rel = (if j_Single j then OneToOne else OneToMany)\<rparr>
                       \<in> set (edgesOf (NodeIndex g) (j_Table j))
                   \<and> \<lparr>Node = j_Table j, Rel = BelongsTo\<rparr> \<in> set (edgesOf (NodeIndex g) (Name t))"
    if "t \<in> set (allTables tables)" "j \<in> set (Joins t)" for t j
    using pairEdges_member[OF joinPairs_explicit[OF that, of None]] by (simp add: ed)
  have nested: "\<lparr>Node = Name c, Rel = (if Single c then OneToOne else OneToMany)\<rparr>
                       \<in> set (edgesOf (NodeIndex g) (Name t))
                   \<and> \<lparr>Node = Name t, Rel = BelongsTo\<rparr> \<in> set (edgesOf (NodeIndex g) (Name c))"
    if "t \<in> set (allTables tables)" "c \<in> set (Tables t)" for t c
    using pairEdges_member[OF joinPairs_nested[OF that, of None]] by (simp add: ed)
  show ?thesis
    using g ed explicit nested by blast
qed

theorem NewSchemaGraph_join_edges_witness:
  "joinsDeclared keeperTables
   \<and> (\<exists>g. NewSchemaGraph keeperTables = Inr (g, None)
        \<and> \<lparr>Node = ''shop'', Rel = OneToOne\<rparr> \<in> set (edgesOf (NodeIndex g) ''zoo'')
        \<and> \<lparr>Node = ''zoo'', Rel = BelongsTo\<rparr> \<in> set (edgesOf (NodeIndex g) ''shop'')
        \<and> \<lparr>Node = ''keeper'', Rel = OneToMany\<rparr> \<in> set (edgesOf (NodeIndex g) ''zoo'')
        \<and> \<lparr>Node = ''zoo'', Rel = BelongsTo\<rparr> \<in> set (edgesOf (NodeIndex g) ''keeper''))"
proof -
  have h: "joinsDeclared keeperTables"
    by (simp add: joinsDeclared_def keeperTables_def tbl_def join_def tableNames_def)
  let ?zoo = "tbl ''zoo'' [core_Table ''shop'' [] [] [] True False] []"
  let ?shop = "core_Table ''shop'' [] [] [] True False"
  let ?keeper = "tbl ''keeper'' [] [\<lparr>j_Table = ''zoo'', j_Single = False, j_Unique = False\<rparr>]"
  let ?j = "\<lparr>j_Table = ''zoo'', j_Single = False, j_Unique = False\<rparr>"
  from NewSchemaGraph_join_edges[OF h] obtain g where
    g: "NewSchemaGraph keeperTables = Inr (g, None)" and
    e: "\<forall>t\<in>set (allTables keeperTables).
                 (\<forall>j\<in>set (Joins t).
                     \<lparr>Node = Name t, Rel = (if j_Single j then OneToOne else OneToMany)\<rparr>
                       \<in> set (edgesOf (NodeIndex g) (j_Table j))
                   \<and> \<lparr>Node = j_Table j, Rel = BelongsTo\<rparr> \<in> set (edgesOf (NodeIndex g) (Name t)))
               \<and> (\<forall>c\<in>set (Tables t).
                     \<lparr>Node = Name c, Rel = (if Single c then OneToOne else OneToMany)\<rparr>
                       \<in> set (edgesOf (NodeIndex g) (Name t))
                   \<and> \<lparr>Node = Name t, Rel = BelongsTo\<rparr> \<in> set (edgesOf (NodeIndex g) (Name c)))"
    by (elim exE conjE) (rule that)
  have t1: "?zoo \<in> set (allTables keeperTables)" and t2: "?keeper \<in> set (allTables keeperTables)"
    by (simp_all add: keeperTables_def tbl_def)
  have c1: "?shop \<in> set (Tables ?zoo)" and j1: "?j \<in> set (Joins ?keeper)"
    by (simp_all add: tbl_def)
  have n: "\<lparr>Node = Name ?shop, Rel = (if Single ?shop then OneToOne else OneToMany)\<rparr>
                       \<in> set (edgesOf (NodeIndex g) (Name ?zoo))
                   \<and> \<lparr>Node = Name ?zoo, Rel = BelongsTo\<rparr> \<in> set (edgesOf (NodeIndex g) (Name ?shop))"
    using e t1 c1 by blast
  have x: "\<lparr>Node = Name ?keeper, Rel = (if j_Single ?j then OneToOne else OneToMany)\<rparr>
                       \<in> set (edgesOf (NodeIndex g) (j_Table ?j))
                   \<and> \<lparr>Node = j_Table ?j, Rel = BelongsTo\<rparr> \<in> set (edgesOf (NodeIndex g) (Name ?keeper))"
    using e t2 j1 by blast
  show ?thesis using h g n x by (auto simp: tbl_def)
qed

subsection \<open>Traversal\<close>

lemma preorderDFS_distinct:
  "distinct (preorderDFS succs universe stack visited)
   \<and> set (preorderDFS succs universe stack visited) \<inter> visited = {}"
  by (induction succs universe stack visited rule: preorderDFS.induct) auto


lemma card_unvisited_mono:
  "V \<subseteq> V' \<Longrightarrow> card (set U - V') \<le> card (set U - V)"
  by (intro card_mono) auto

lemma card_unvisited_insert:
  "n \<in> set U \<Longrightarrow> n \<notin> V \<Longrightarrow> card (set U - V) \<le> Suc k \<Longrightarrow> card (set U - insert n V) \<le> k"
proof -
  assume a: "n \<in> set U" "n \<notin> V" "card (set U - V) \<le> Suc k"
  have "set U - insert n V = (set U - V) - {n}" by auto
  moreover have "n \<in> set U - V" using a by simp
  ultimately have "card (set U - insert n V) = card (set U - V) - 1" by simp
  then show ?thesis using a(3) by simp
qed

lemma visitEdges_from_node:
  assumes wf: "\<forall>k n. map_of nodes k = Some n \<longrightarrow> Name (Table n) = k"
    and P: "nodeReturns k nodes"
  shows "edgesReturn k nodes"
  unfolding edgesReturn_def
proof (intro allI impI)
  fix es :: "SchemaEdge list" and V :: "string set" and tr :: "string list"
  assume "Node ` set es \<subseteq> fst ` set nodes" "card (fst ` set nodes - V) \<le> k"
  then show "\<exists>V' t. visitEdges k nodes recordVisit es V tr = Some (Inr (None, V', tr @ t))
               \<and> V \<subseteq> V'
               \<and> (\<forall>stack. preorderDFS (succsOf nodes) (map fst nodes) (map Node es @ stack) V
                            = t @ preorderDFS (succsOf nodes) (map fst nodes) stack V')"
  proof (induction es arbitrary: V tr)
    case Nil
    show ?case by (intro exI[of _ V] exI[of _ "[]"]) simp
  next
    case (Cons e es)
    let ?K = "fst ` set nodes"
    have eK: "Node e \<in> ?K" and esK: "Node ` set es \<subseteq> ?K" using Cons.prems(1) by auto
    then obtain en where en: "map_of nodes (Node e) = Some en" by (auto simp: in_keys_iff)
    have nm: "Name (Table en) = Node e" using wf en by blast
    have inU: "Node e \<in> set (map fst nodes)" using eK by simp
    show ?case
    proof (cases "Node e \<in> V")
      case True
      from Cons.IH[OF esK Cons.prems(2), of tr] obtain V' t where
        r: "visitEdges k nodes recordVisit es V tr = Some (Inr (None, V', tr @ t))" "V \<subseteq> V'"
           "\<forall>stack. preorderDFS (succsOf nodes) (map fst nodes) (map Node es @ stack) V
                            = t @ preorderDFS (succsOf nodes) (map fst nodes) stack V'"
        by blast
      have "visitEdges k nodes recordVisit (e # es) V tr = Some (Inr (None, V', tr @ t))"
        using en nm True r(1) by simp
      moreover have "\<forall>stack. preorderDFS (succsOf nodes) (map fst nodes) (map Node (e # es) @ stack) V
                            = t @ preorderDFS (succsOf nodes) (map fst nodes) stack V'"
        using True r(3) by simp
      ultimately show ?thesis using r(2) by blast
    next
      case False
      from P[unfolded nodeReturns_def, rule_format, OF eK False Cons.prems(2), of tr]
      obtain V1 t1 where
        a: "visitSchemaNode k nodes recordVisit (Node e) V tr = Some (Inr (None, V1, tr @ t1))"
           "V \<subseteq> V1"
           "\<forall>stack. preorderDFS (succsOf nodes) (map fst nodes) (Node e # stack) V
                            = t1 @ preorderDFS (succsOf nodes) (map fst nodes) stack V1"
        by blast
      have c1: "card (?K - V1) \<le> k"
        using card_unvisited_mono[OF a(2), of "map fst nodes"] Cons.prems(2) by simp
      from Cons.IH[OF esK c1, of "tr @ t1"] obtain V' t2 where
        r: "visitEdges k nodes recordVisit es V1 (tr @ t1) = Some (Inr (None, V', (tr @ t1) @ t2))"
           "V1 \<subseteq> V'"
           "\<forall>stack. preorderDFS (succsOf nodes) (map fst nodes) (map Node es @ stack) V1
                            = t2 @ preorderDFS (succsOf nodes) (map fst nodes) stack V'"
        by blast
      have "visitEdges k nodes recordVisit (e # es) V tr = Some (Inr (None, V', tr @ (t1 @ t2)))"
        using en nm False a(1) r(1) by simp
      moreover have "\<forall>stack. preorderDFS (succsOf nodes) (map fst nodes) (map Node (e # es) @ stack) V
                            = (t1 @ t2) @ preorderDFS (succsOf nodes) (map fst nodes) stack V'"
      proof
        fix stack
        have "preorderDFS (succsOf nodes) (map fst nodes) (map Node (e # es) @ stack) V
              = preorderDFS (succsOf nodes) (map fst nodes) (Node e # (map Node es @ stack)) V"
          by simp
        also have "\<dots> = t1 @ preorderDFS (succsOf nodes) (map fst nodes) (map Node es @ stack) V1"
          using a(3) by blast
        also have "\<dots> = t1 @ t2 @ preorderDFS (succsOf nodes) (map fst nodes) stack V'"
          using r(3) by simp
        finally show "preorderDFS (succsOf nodes) (map fst nodes) (map Node (e # es) @ stack) V
                            = (t1 @ t2) @ preorderDFS (succsOf nodes) (map fst nodes) stack V'"
          by simp
      qed
      moreover have "V \<subseteq> V'" using a(2) r(2) by blast
      ultimately show ?thesis by blast
    qed
  qed
qed

lemma visitSchemaNode_from_edges:
  assumes wf: "\<forall>k n. map_of nodes k = Some n \<longrightarrow> Name (Table n) = k"
    and cl: "\<forall>k. Node ` set (edgesOf nodes k) \<subseteq> fst ` set nodes"
    and Q: "edgesReturn k nodes"
  shows "nodeReturns (Suc k) nodes"
  unfolding nodeReturns_def
proof (intro allI impI)
  fix n :: string and V :: "string set" and tr :: "string list"
  let ?K = "fst ` set nodes"
  assume nK: "n \<in> ?K" and nV: "n \<notin> V" and c: "card (?K - V) \<le> Suc k"
  from nK obtain node where node: "map_of nodes n = Some node" by (auto simp: in_keys_iff)
  have nm: "Name (Table node) = n" using wf node by blast
  have ed: "edgesOf nodes n = Edges node" using node by (simp add: edgesOf_def)
  have esK: "Node ` set (Edges node) \<subseteq> ?K" using cl[rule_format, of n] ed by simp
  have c': "card (?K - insert n V) \<le> k"
    using card_unvisited_insert[of n "map fst nodes" V k] nK nV c by simp
  from Q[unfolded edgesReturn_def, rule_format, OF esK c', of "tr @ [n]"] obtain V' t where
    r: "visitEdges k nodes recordVisit (Edges node) (insert n V) (tr @ [n])
          = Some (Inr (None, V', (tr @ [n]) @ t))"
       "insert n V \<subseteq> V'"
       "\<forall>stack. preorderDFS (succsOf nodes) (map fst nodes) (map Node (Edges node) @ stack) (insert n V)
                            = t @ preorderDFS (succsOf nodes) (map fst nodes) stack V'"
    by blast
  have "visitSchemaNode (Suc k) nodes recordVisit n V tr = Some (Inr (None, V', tr @ (n # t)))"
    using node nm r(1) by (simp add: recordVisit_def)
  moreover have "\<forall>stack. preorderDFS (succsOf nodes) (map fst nodes) (n # stack) V
                            = (n # t) @ preorderDFS (succsOf nodes) (map fst nodes) stack V'"
    using nK nV r(3) by (simp add: succsOf_def ed)
  moreover have "V \<subseteq> V'" using r(2) by blast
  ultimately show "\<exists>V' t. visitSchemaNode (Suc k) nodes recordVisit n V tr = Some (Inr (None, V', tr @ t))
               \<and> V \<subseteq> V'
               \<and> (\<forall>stack. preorderDFS (succsOf nodes) (map fst nodes) (n # stack) V
                            = t @ preorderDFS (succsOf nodes) (map fst nodes) stack V')"
    by blast
qed

lemma nodeReturns_0: "nodeReturns 0 nodes"
  unfolding nodeReturns_def
proof (intro allI impI)
  fix n :: string and V :: "string set" and tr :: "string list"
  assume "n \<in> fst ` set nodes" "n \<notin> V" "card (fst ` set nodes - V) \<le> 0"
  then have "fst ` set nodes - V = {}" by simp
  then have False using \<open>n \<in> fst ` set nodes\<close> \<open>n \<notin> V\<close> by blast
  then show "\<exists>V' t. visitSchemaNode 0 nodes recordVisit n V tr = Some (Inr (None, V', tr @ t))
               \<and> V \<subseteq> V'
               \<and> (\<forall>stack. preorderDFS (succsOf nodes) (map fst nodes) (n # stack) V
                            = t @ preorderDFS (succsOf nodes) (map fst nodes) stack V')" ..
qed

lemma nodeReturns_all:
  assumes wf: "\<forall>k n. map_of nodes k = Some n \<longrightarrow> Name (Table n) = k"
    and cl: "\<forall>k. Node ` set (edgesOf nodes k) \<subseteq> fst ` set nodes"
  shows "nodeReturns k nodes"
proof (induction k)
  case 0
  show ?case by (rule nodeReturns_0)
next
  case (Suc k)
  show ?case
    by (rule visitSchemaNode_from_edges[OF wf cl visitEdges_from_node[OF wf Suc]])
qed


lemma traverseNodes_from_node:
  assumes wf: "\<forall>k n. map_of nodes k = Some n \<longrightarrow> Name (Table n) = k"
    and P: "nodeReturns k nodes"
    and "set ns \<subseteq> fst ` set nodes" "card (fst ` set nodes - V) \<le> k"
  shows "\<exists>t. traverseNodes k nodes recordVisit ns V tr = Some (Inr (None, tr @ t))
           \<and> preorderDFS (succsOf nodes) (map fst nodes) ns V = t"
  using assms(3,4)
proof (induction ns arbitrary: V tr)
  case Nil
  show ?case by simp
next
  case (Cons n ns)
  let ?K = "fst ` set nodes"
  have nK: "n \<in> ?K" and nsK: "set ns \<subseteq> ?K" using Cons.prems(1) by auto
  then obtain node where node: "map_of nodes n = Some node" by (auto simp: in_keys_iff)
  have nm: "Name (Table node) = n" using wf node by blast
  show ?case
  proof (cases "n \<in> V")
    case True
    from Cons.IH[OF nsK Cons.prems(2), of tr] obtain t where
      r: "traverseNodes k nodes recordVisit ns V tr = Some (Inr (None, tr @ t))"
         "preorderDFS (succsOf nodes) (map fst nodes) ns V = t"
      by blast
    show ?thesis using node nm True r by simp
  next
    case False
    from P[unfolded nodeReturns_def, rule_format, OF nK False Cons.prems(2), of tr]
    obtain V1 t1 where
      a: "visitSchemaNode k nodes recordVisit n V tr = Some (Inr (None, V1, tr @ t1))"
         "V \<subseteq> V1"
         "\<forall>stack. preorderDFS (succsOf nodes) (map fst nodes) (n # stack) V
                          = t1 @ preorderDFS (succsOf nodes) (map fst nodes) stack V1"
      by blast
    have c1: "card (?K - V1) \<le> k"
      using card_unvisited_mono[OF a(2), of "map fst nodes"] Cons.prems(2) by simp
    from Cons.IH[OF nsK c1, of "tr @ t1"] obtain t2 where
      r: "traverseNodes k nodes recordVisit ns V1 (tr @ t1) = Some (Inr (None, (tr @ t1) @ t2))"
         "preorderDFS (succsOf nodes) (map fst nodes) ns V1 = t2"
      by blast
    have "traverseNodes k nodes recordVisit (n # ns) V tr = Some (Inr (None, tr @ (t1 @ t2)))"
      using node nm False a(1) r(1) by simp
    moreover have "preorderDFS (succsOf nodes) (map fst nodes) (n # ns) V = t1 @ t2"
      using a(3)[rule_format, of ns] r(2) by simp
    ultimately show ?thesis by blast
  qed
qed

lemma connectJoins_invariant:
  assumes step: "\<And>nodes n c u nodes'. addEdgeFromJoin nodes n c u = Inr nodes' \<Longrightarrow> I nodes \<Longrightarrow> I nodes'"
  shows "connectJoins nodes tname js = Inr (nodes', e) \<Longrightarrow> I nodes \<Longrightarrow> I nodes'"
proof (induction js arbitrary: nodes)
  case Nil
  then show ?case by simp
next
  case (Cons j js)
  show ?case
  proof (cases "map_of nodes (j_Table j)")
    case None
    then show ?thesis using Cons.prems by simp
  next
    case (Some pn)
    then obtain nodes1 where a: "addEdgeFromJoin nodes (j_Table j) tname (j_Single j) = Inr nodes1"
      and r: "connectJoins nodes1 tname js = Inr (nodes', e)"
      using Cons.prems(1) by (auto split: sum.splits)
    from Cons.IH[OF r step[OF a Cons.prems(2)]] show ?thesis .
  qed
qed

lemma connectFrom_invariant:
  assumes step: "\<And>nodes n c u nodes'. addEdgeFromJoin nodes n c u = Inr nodes' \<Longrightarrow> I nodes \<Longrightarrow> I nodes'"
  shows "connectFrom nodes ts parent = Inr (nodes', e) \<Longrightarrow> I nodes \<Longrightarrow> I nodes'"
proof (induction nodes ts parent arbitrary: nodes' e rule: connectFrom.induct)
  case (1 nodes parent)
  then show ?case by simp
next
  case (2 nodes n fs cs js sg un ts parent)
  from "2.prems"(1) obtain nodes1 e1 where j: "connectJoins nodes n js = Inr (nodes1, e1)"
    by (auto split: sum.splits)
  have p1: "I nodes1" using connectJoins_invariant[of I, OF step j "2.prems"(2)] .
  show ?case
  proof (cases e1)
    case (Some err)
    then show ?thesis using "2.prems"(1) j p1 by simp
  next
    case None
    from "2.prems"(1) j None obtain nodes2 where
      a: "(case parent of None \<Rightarrow> Inr nodes1 | Some p \<Rightarrow> addEdgeFromJoin nodes1 p n sg) = Inr nodes2"
      by (auto split: sum.splits)
    have p2: "I nodes2"
    proof (cases parent)
      case None
      then show ?thesis using a p1 by simp
    next
      case (Some p)
      then have "addEdgeFromJoin nodes1 p n sg = Inr nodes2" using a by simp
      from step[OF this p1] show ?thesis .
    qed
    from "2.prems"(1) j None a obtain nodes3 e3 where
      c: "connectFrom nodes2 cs (nodePtr nodes2 n) = Inr (nodes3, e3)"
      and r: "connectFrom nodes3 ts parent = Inr (nodes', e)"
      by (auto split: sum.splits)
    have p3: "I nodes3"
      using "2.IH"(1)[OF j[unfolded None] refl refl a c p2] .
    show ?thesis
      using "2.IH"(2)[OF j[unfolded None] refl refl a c refl r p3] .
  qed
qed

lemma addEdgeFromJoin_shape:
  assumes a: "addEdgeFromJoin nodes n c u = Inr nodes'" and s: "graphShape nodes"
  shows "graphShape nodes'"
proof -
  have names: "Name (Table x) = k" if "map_of nodes' k = Some x" for k x
  proof -
    from addEdgeFromJoin_result(3)[OF a, of k] that
    obtain x0 where "map_of nodes k = Some x0" "Table x0 = Table x" by (auto simp: map_option_case split: option.splits)
    then show ?thesis using s unfolding graphShape_def by metis
  qed
  have "Node ` set (edgesOf nodes' k) \<subseteq> fst ` set nodes'" for k
  proof
    fix x assume "x \<in> Node ` set (edgesOf nodes' k)"
    then obtain ed where ed: "ed \<in> set (edgesOf nodes k) \<or> ed \<in> set (joinEdges n c u k)" "x = Node ed"
      unfolding addEdgeFromJoin_result(2)[OF a] by auto
    have "x \<in> fst ` set nodes"
    proof (cases "ed \<in> set (edgesOf nodes k)")
      case True
      then show ?thesis using s ed(2) unfolding graphShape_def by blast
    next
      case False
      then have "ed \<in> set (joinEdges n c u k)" using ed(1) by simp
      then have "x = c \<or> x = n" using ed(2) by (auto simp: joinEdges_def split: if_splits)
      then show ?thesis using addEdgeFromJoin_result(4,5)[OF a] by blast
    qed
    then show "x \<in> fst ` set nodes'" unfolding addEdgeFromJoin_result(1)[OF a] .
  qed
  then show ?thesis using names by (simp add: graphShape_def)
qed

lemma createFrom_names:
  "(\<forall>k n. map_of nodes k = Some n \<longrightarrow> Name (Table n) = k) \<Longrightarrow>
   (\<forall>k n. map_of (createFrom nodes ts) k = Some n \<longrightarrow> Name (Table n) = k)"
proof (induction nodes ts rule: createFrom.induct)
  case (1 nodes)
  then show ?case by simp
next
  case (2 nodes n fs cs js sg un ts)
  let ?n1 = "AList.update n \<lparr>Table = core_Table n fs cs js sg un, Edges = []\<rparr> nodes"
  have a: "\<forall>k x. map_of ?n1 k = Some x \<longrightarrow> Name (Table x) = k"
    using "2.prems" by (auto simp: update_conv')
  have b: "\<forall>k x. map_of (createFrom ?n1 cs) k = Some x \<longrightarrow> Name (Table x) = k"
    using "2.IH"(1) a by blast
  show ?case using "2.IH"(2) b by simp
qed

lemma rootNodes_subset: "set (rootNodes tables) \<subseteq> set (tableNames tables)"
  using set_subset_allTables[of tables] by (auto simp: rootNodes_def tableNames_def)

lemma NewSchemaGraph_wellFormed:
  assumes "NewSchemaGraph tables = Inr (g, e)"
  shows "wellFormed g"
proof -
  let ?nodes = "createFrom [] tables"
  have s0: "graphShape ?nodes"
    unfolding graphShape_def
  proof (intro conjI)
    show "\<forall>k n. map_of ?nodes k = Some n \<longrightarrow> Name (Table n) = k"
      by (rule createFrom_names) simp
    have "edgesOf ?nodes k = []" for k
      by (rule createFrom_no_edges) (simp add: edgesOf_def)
    then show "\<forall>k. Node ` set (edgesOf ?nodes k) \<subseteq> fst ` set ?nodes" by simp
  qed
  from assms obtain nodes' e' where r: "connectFrom ?nodes tables None = Inr (nodes', e')"
    and g: "NodeIndex g = nodes'" "Nodes g = rootNodes tables"
    by (auto simp: NewSchemaGraph_def Let_def split: sum.splits option.splits)
  have s: "graphShape nodes'"
    by (rule connectFrom_invariant[of graphShape, OF addEdgeFromJoin_shape r s0])
  obtain g2 e2 where "NewSchemaGraph tables = Inr (g2, e2)" "fst ` set (NodeIndex g2) = set (tableNames tables)"
    using NewSchemaGraph_run[of tables] by blast
  then have "fst ` set nodes' = set (tableNames tables)" using assms g(1) by simp
  then show ?thesis
    using s g rootNodes_subset[of tables] by (simp add: wellFormed_def graphShape_def)
qed

lemma NewSchemaGraph_travTables: "NewSchemaGraph travTables = Inr (travGraph, None)"
  by (simp add: travTables_def travGraph_def tbl_def join_def NewSchemaGraph_def
      addEdgeFromJoin_def rootNodes_def nodePtr_def)

text \<open>
  C2, as it is written: \<open>Traverse\<close> is the depth-first search in pre-order that follows
  the OneToMany and OneToOne edges only. The graph of two roots \<open>A\<close> and \<open>B\<close>, a table
  \<open>C\<close> that joins both and a table \<open>E\<close> that joins \<open>A\<close> refutes it. From \<open>A\<close> the
  traversal reaches \<open>C\<close>, and from \<open>C\<close> it goes down the BelongsTo edge to \<open>B\<close>,
  before \<open>E\<close>; the search over the forward edges visits \<open>E\<close> before \<open>B\<close>.
\<close>

theorem Traverse_forward_only_counterexample:
  "NewSchemaGraph travTables = Inr (travGraph, None)
   \<and> Traverse 4 travGraph recordVisit [] = Some (Inr (None, [''A'', ''C'', ''B'', ''E'']))
   \<and> preorderDFS (forwardSuccsOf (NodeIndex travGraph)) (map fst (NodeIndex travGraph))
        (Nodes travGraph) {} = [''A'', ''C'', ''E'', ''B'']"
proof -
  have a: "Traverse 4 travGraph recordVisit [] = Some (Inr (None, [''A'', ''C'', ''B'', ''E'']))"
    by (simp add: Traverse_def travGraph_def tbl_def join_def recordVisit_def numeral_eq_Suc)
  have b: "preorderDFS (forwardSuccsOf (NodeIndex travGraph)) (map fst (NodeIndex travGraph))
        (Nodes travGraph) {} = [''A'', ''C'', ''E'', ''B'']"
    by (simp add: travGraph_def forwardSuccsOf_def edgesOf_def)
  show ?thesis using NewSchemaGraph_travTables a b by simp
qed

text \<open>
  C2, amended: on every graph whose pointers are in order, and with fuel for as many
  nested calls as the graph has nodes, \<open>Traverse\<close> returns without error, and the
  nodes it applies the callback to are, in this order, those of the depth-first search in
  pre-order that starts from the roots in their order and follows every edge of a node,
  BelongsTo edges as well, in the order of the edge list, passing over the nodes visited
  already. No node gets the callback twice.
\<close>

theorem Traverse_preorder:
  assumes "wellFormed g" and "length (NodeIndex g) \<le> fuel"
  shows "Traverse fuel g recordVisit []
           = Some (Inr (None, preorderDFS (succsOf (NodeIndex g)) (map fst (NodeIndex g)) (Nodes g) {}))
         \<and> distinct (preorderDFS (succsOf (NodeIndex g)) (map fst (NodeIndex g)) (Nodes g) {})"
proof -
  let ?nodes = "NodeIndex g"
  have wf: "\<forall>k n. map_of ?nodes k = Some n \<longrightarrow> Name (Table n) = k"
    and cl: "\<forall>k. Node ` set (edgesOf ?nodes k) \<subseteq> fst ` set ?nodes"
    and rt: "set (Nodes g) \<subseteq> fst ` set ?nodes"
    using assms(1) by (simp_all add: wellFormed_def)
  have "card (fst ` set ?nodes) \<le> length ?nodes"
    by (metis card_length length_map list.set_map)
  then have c: "card (fst ` set ?nodes - {}) \<le> fuel" using assms(2) by simp
  from traverseNodes_from_node[OF wf nodeReturns_all[OF wf cl] rt c, of "[]"]
  have "Traverse fuel g recordVisit []
           = Some (Inr (None, preorderDFS (succsOf ?nodes) (map fst ?nodes) (Nodes g) {}))"
    by (auto simp: Traverse_def)
  then show ?thesis using preorderDFS_distinct by blast
qed

theorem Traverse_preorder_witness:
  "wellFormed travGraph \<and> length (NodeIndex travGraph) \<le> 4
   \<and> Traverse 4 travGraph recordVisit [] = Some (Inr (None, [''A'', ''C'', ''B'', ''E'']))
   \<and> preorderDFS (succsOf (NodeIndex travGraph)) (map fst (NodeIndex travGraph)) (Nodes travGraph) {}
       = [''A'', ''C'', ''B'', ''E'']
   \<and> distinct [''A'', ''C'', ''B'', ''E'']"
proof -
  have h1: "wellFormed travGraph"
    by (rule NewSchemaGraph_wellFormed[OF NewSchemaGraph_travTables])
  have h2: "length (NodeIndex travGraph) \<le> 4" by (simp add: travGraph_def)
  have d: "preorderDFS (succsOf (NodeIndex travGraph)) (map fst (NodeIndex travGraph)) (Nodes travGraph) {}
       = [''A'', ''C'', ''B'', ''E'']"
    by (simp add: travGraph_def succsOf_def edgesOf_def)
  from Traverse_preorder[OF h1 h2]
  have "Traverse 4 travGraph recordVisit [] = Some (Inr (None, [''A'', ''C'', ''B'', ''E'']))"
    unfolding d by blast
  then show ?thesis using h1 h2 d by simp
qed

end
